theory Spec2Isabelle
  imports Main
begin

section \<open>The session orchestrator of \<open>backend/src/api.ts\<close>\<close>

text \<open>
  The class \<open>Session\<close> is embedded as a record of its mutable fields together with a
  trace of the calls it makes on its collaborators (the transport, the process
  primitives, the lease pool, the logger). Every handler of the class is a function
  from a session state to a session state. The collaborators that are not part of
  the file (\<open>util\<close>, \<open>users\<close>, \<open>langs\<close>, Node's libraries) are parameters: a
  \<open>world\<close> decides which external call throws, and the helpers that only build
  argument vectors are free constructors.

  The methods of the class are \<open>async\<close>, and nothing in the class serialises them:
  while one handler waits at an \<open>await\<close>, other callbacks run. The suspension points
  are kept. A Run-Code request runs up to its first awaited command
  (\<open>runCode_begin\<close>) and is then stored in the field \<open>waiting\<close> of the model; the
  event \<open>Resume\<close> continues one waiting request up to its next awaited command or to
  its end (\<open>resume\<close>), and any other event may come in between. \<open>teardown\<close> is split
  at its timer (\<open>teardown_begin\<close>, then \<open>teardown_finish\<close> when the timer fires).
  \<open>sendError\<close>, which no caller awaits, is split at its first \<open>await\<close>
  (\<open>sendError_first\<close> runs inside the call, \<open>sendError_rest\<close> when the caller next
  yields, before any other callback). \<open>setup\<close> is run as a whole: until its last
  statements no callback of the transport is registered, so no message can be
  received while it waits (the callbacks of the terminal and of the daemon, which
  only send frames, are not interleaved with it), and the \<open>runCode\<close> it calls is the
  only one that can be running. The release sequence that follows the timer of
  \<open>teardown\<close> is run as a whole as well (\<open>teardown_finish\<close>).
\<close>

subsection \<open>Values exchanged with the client\<close>

text \<open>The result of \<open>JSON.parse\<close>.\<close>

datatype json =
    JNull
  | JBool bool
  | JNum int
  | JStr string
  | JArr "json list"
  | JObj "(string \<times> json) list"

text \<open>
  Property access \<open>msg.p\<close> on a parsed value, for the property names the handler
  reads (\<open>event\<close>, \<open>input\<close>, \<open>code\<close>): an object yields the member when it has one,
  every other value yields \<open>undefined\<close> (\<open>None\<close>). The handler only reads properties
  of a truthy \<open>msg\<close>, so \<open>null\<close> is never dereferenced. The members of an object are
  listed with the one that a lookup finds first.
\<close>

fun js_get :: "json \<Rightarrow> string \<Rightarrow> json option" where
  "js_get (JObj kvs) p = map_of kvs p"
| "js_get _ p = None"

text \<open>The operator \<open>typeof\<close> applied to the result of a property access.\<close>

fun js_typeof :: "json option \<Rightarrow> string" where
  "js_typeof None = ''undefined''"
| "js_typeof (Some JNull) = ''object''"
| "js_typeof (Some (JBool b)) = ''boolean''"
| "js_typeof (Some (JNum n)) = ''number''"
| "js_typeof (Some (JStr s)) = ''string''"
| "js_typeof (Some (JArr xs)) = ''object''"
| "js_typeof (Some (JObj kvs)) = ''object''"

text \<open>Truthiness of a parsed value (\<open>msg && ...\<close>).\<close>

fun js_truthy :: "json \<Rightarrow> bool" where
  "js_truthy JNull = False"
| "js_truthy (JBool b) = b"
| "js_truthy (JNum n) = (n \<noteq> 0)"
| "js_truthy (JStr s) = (s \<noteq> [])"
| "js_truthy (JArr xs) = True"
| "js_truthy (JObj kvs) = True"

text \<open>
  The conversion of a parsed value to a string, as a template literal does it, throws
  a \<open>TypeError\<close> when it meets an object whose own member \<open>toString\<close> hides the
  inherited method (no parsed value is callable, and the inherited \<open>valueOf\<close> returns
  the object itself). An array converts its elements, except \<open>null\<close>, and joins
  them; every other value converts without error.
\<close>

fun js_string_throws :: "json \<Rightarrow> bool" where
  "js_string_throws (JObj kvs) = (map_of kvs ''toString'' \<noteq> None)"
| "js_string_throws (JArr xs) = (\<exists>x \<in> set xs. js_string_throws x)"
| "js_string_throws _ = False"

definition to_primitive_error :: string where
  "to_primitive_error = ''TypeError: Cannot convert object to primitive value''"

text \<open>Truthiness of an optional string (\<open>undefined\<close> and \<open>""\<close> are falsy).\<close>

fun truthy :: "string option \<Rightarrow> bool" where
  "truthy None = False"
| "truthy (Some s) = (s \<noteq> [])"

text \<open>The outbound frames, the argument of \<open>Session.send\<close> before \<open>JSON.stringify\<close>.\<close>

datatype msg =
    TerminalClear
  | TerminalOutput string
  | ServiceLog string string
  | ServiceFailed string string
  | LspOutput json
  | LspStarted string

subsection \<open>Language descriptor and command vectors\<close>

text \<open>
  The fields of \<open>LangConfig\<close> that the class reads. The declaration itself
  (\<open>langs.ts\<close>) is not part of the file; optional fields are options.
\<close>

record LangConfig =
  name :: string
  repl :: "string option"
  main :: string
  suffix :: "string option"
  createEmpty :: bool
  compile :: "string option"
  run :: string
  template :: string
  hacks :: "string list option"
  daemon :: "string option"
  lsp :: "string option"
  lspSetup :: "string option"

text \<open>The getter \<open>context\<close>: \<open>{ uid, uuid }\<close>.\<close>

datatype session_context = Context (ctx_uid: nat) (ctx_uuid: string)

text \<open>
  Argument vectors. \<open>util.bash\<close>, \<open>util.privilegedSetup\<close>, \<open>util.privilegedSpawn\<close>
  and \<open>util.privilegedTeardown\<close> only build vectors; they are kept as constructors.
\<close>

datatype argv = Bash string | Args "string list"

datatype command =
    PrivilegedSetup session_context
  | PrivilegedSpawn session_context argv
  | PrivilegedTeardown session_context

subsection \<open>Calls on the collaborators\<close>

text \<open>The lines written by \<open>Session.log\<close>, one constructor for each call site.\<close>

datatype logline =
    CreatingSession
  | BorrowedUid nat
  | SetupError
  | SendFailed string
  | MalformedMessage json
  | ParseFailed
  | TerminalInputIgnored
  | LspInputIgnored
  | HandlingError
  | RunCodeError
  | TearingDown
  | TeardownError
  | WebsocketError string

text \<open>The objects that carry listeners, and the listeners the class registers.\<close>

datatype emitter =
    Ws
  | Pty nat
  | DaemonStdout
  | DaemonStderr
  | DaemonProc
  | LspReader
  | LspStderr
  | LspProc

datatype listener =
    OnWsMessage
  | OnWsClose
  | OnWsError
  | OnPtyData nat
  | OnDaemonData
  | OnDaemonExit
  | OnDaemonError
  | OnLspMessage
  | OnLspData
  | OnLspExit
  | OnLspError

text \<open>
  Every call that leaves the class, in the order in which it is made. A call is
  recorded when it is attempted, also when it then throws.
\<close>

datatype effect =
    Log logline
  | ConsoleLog string
  | WsSend msg
  | WsTerminate
  | BorrowUser
  | ReturnUID nat
  | Run command "string option"
  | Spawn command
  | PtySpawn nat command
  | PtyWrite nat string
  | LspWrite json
  | SetTimeout nat

text \<open>
  The environment: \<open>throws\<close> says, from the calls made so far and the call being
  made, whether the call throws (or its promise rejects) and with which error;
  \<open>json_parse\<close> is \<open>JSON.parse\<close> (\<open>None\<close> when it throws); \<open>borrow_uid\<close> is the uid
  the lease pool hands out; \<open>pty_pid\<close> is the process id of a pseudo-terminal;
  \<open>num_str\<close> prints a number; \<open>path_dirname\<close> and \<open>path_resolve\<close> are Node's.
\<close>

record world =
  throws :: "effect list \<Rightarrow> effect \<Rightarrow> string option"
  json_parse :: "string \<Rightarrow> json option"
  borrow_uid :: nat
  pty_pid :: "nat \<Rightarrow> nat"
  num_str :: "nat \<Rightarrow> string"
  path_dirname :: "string \<Rightarrow> string"
  path_resolve :: "string \<Rightarrow> string \<Rightarrow> string"

subsection \<open>The session\<close>

text \<open>
  The fields of \<open>Session\<close>. \<open>term_h\<close> is the field \<open>term\<close>: a reference to a terminal
  object, and \<open>term_live\<close> is the store of the \<open>live\<close> flags of all terminal objects
  created so far (the data callback of a terminal keeps a reference to its own object
  after the field has been overwritten). \<open>uidInfo\<close> holds the leased uid; its
  \<open>returnUID\<close> capability is the call \<open>ReturnUID\<close>. \<open>listeners\<close> are the
  registrations made with \<open>on\<close> and \<open>listen\<close>, in order. \<open>in_allSessions\<close> is the
  membership in the module's set \<open>allSessions\<close>, \<open>grace_pending\<close> the timer that
  \<open>teardown\<close> waits for, \<open>waiting\<close> the Run-Code requests that wait for a command, and
  \<open>trace\<close> the calls made so far.
\<close>

text \<open>
  A Run-Code request that waits for a command: the command it awaits, the code it
  deploys and the command line it resolved (its local variables), and the result the
  command will have (\<open>None\<close> when it succeeds, the error when its promise rejects).
\<close>

datatype stage = AwaitMkdir | AwaitWrite | AwaitHack

datatype task = Task stage string string "string option"

record session =
  uuid :: string
  config :: LangConfig
  tearingDown :: bool
  uidInfo :: "nat option"
  term_h :: "nat option"
  term_live :: "bool list"
  lsp_h :: bool
  daemon_h :: bool
  listeners :: "(emitter \<times> string \<times> listener) list"
  in_allSessions :: bool
  grace_pending :: bool
  waiting :: "task list"
  trace :: "effect list"

definition emit_call :: "effect \<Rightarrow> session \<Rightarrow> session" where
  "emit_call e s = s\<lparr>trace := trace s @ [e]\<rparr>"

text \<open>
  A statement that may throw yields the state it reached and the error, if any.
\<close>

type_synonym outcome = "string option \<times> session"

definition call :: "world \<Rightarrow> effect \<Rightarrow> session \<Rightarrow> outcome" where
  "call w e s = (throws w (trace s) e, emit_call e s)"

definition and_then :: "outcome \<Rightarrow> (session \<Rightarrow> outcome) \<Rightarrow> outcome" where
  "and_then r f = (case r of (None, s) \<Rightarrow> f s | (Some err, s) \<Rightarrow> (Some err, s))"

definition homedir :: "session \<Rightarrow> string" where
  "homedir s = ''/tmp/riju/'' @ uuid s"

text \<open>
  The getter \<open>context\<close> reads \<open>this.uidInfo!.uid\<close>: with no lease it throws a
  \<open>TypeError\<close>.
\<close>

definition null_uid_error :: string where
  "null_uid_error = ''TypeError: Cannot read properties of null''"

definition get_context :: "session \<Rightarrow> string + session_context" where
  "get_context s =
     (case uidInfo s of
        None \<Rightarrow> Inl null_uid_error
      | Some u \<Rightarrow> Inr (Context u (uuid s)))"

subsection \<open>\<open>teardown\<close> and \<open>send\<close>\<close>

text \<open>
  \<open>teardown\<close> up to its first suspension point: the guard, the flag, the removal
  from \<open>allSessions\<close> and the start of the 5000 ms timer. Nothing in it can throw.
\<close>

definition teardown_begin :: "session \<Rightarrow> session" where
  "teardown_begin s =
     (if tearingDown s then s
      else emit_call (SetTimeout 5000)
             ((emit_call (Log TearingDown) s)
                \<lparr>tearingDown := True, in_allSessions := False, grace_pending := True\<rparr>))"

text \<open>
  The rest of \<open>teardown\<close>, run when the timer fires: the privileged cleanup, the
  return of the uid (\<open>this.uidInfo && ...\<close>) and \<open>ws.terminate()\<close>, inside the
  \<open>try\<close> whose handler only logs.
\<close>

definition teardown_release :: "world \<Rightarrow> session \<Rightarrow> outcome" where
  "teardown_release w s =
     (case get_context s of
        Inl err \<Rightarrow> (Some err, s)
      | Inr ctx \<Rightarrow>
          and_then (call w (Run (PrivilegedTeardown ctx) None) s) (\<lambda>s1.
          and_then (case uidInfo s1 of
                      None \<Rightarrow> (None, s1)
                    | Some u \<Rightarrow> call w (ReturnUID u) s1) (\<lambda>s2.
          call w WsTerminate s2)))"

definition teardown_finish :: "world \<Rightarrow> session \<Rightarrow> session" where
  "teardown_finish w s =
     (case teardown_release w (s\<lparr>grace_pending := False\<rparr>) of
        (None, s') \<Rightarrow> s'
      | (Some err, s') \<Rightarrow> emit_call (ConsoleLog err) (emit_call (Log TeardownError) s'))"

text \<open>The timer of \<open>teardown\<close> fires: the release runs if a teardown is waiting.\<close>

definition grace_elapsed :: "world \<Rightarrow> session \<Rightarrow> session" where
  "grace_elapsed w s = (if grace_pending s then teardown_finish w s else s)"

text \<open>\<open>teardown\<close> as a whole, when nothing else happens during the wait.\<close>

definition teardown :: "world \<Rightarrow> session \<Rightarrow> session" where
  "teardown w s = grace_elapsed w (teardown_begin s)"

text \<open>
  \<open>send\<close>: nothing once teardown has begun; otherwise \<open>ws.send\<close>, and when that
  throws, a log line and \<open>teardown\<close> (here up to its suspension point).
\<close>

definition send :: "world \<Rightarrow> session \<Rightarrow> msg \<Rightarrow> session" where
  "send w s m =
     (if tearingDown s then s
      else case call w (WsSend m) s of
             (None, s') \<Rightarrow> s'
           | (Some err, s') \<Rightarrow> teardown_begin (emit_call (Log (SendFailed err)) s'))"

text \<open>
  \<open>sendError\<close> is two awaited sends. Every caller invokes it without \<open>await\<close>: the
  first send runs inside the call, the second when the caller next yields.
\<close>

definition error_text :: "string \<Rightarrow> string" where
  "error_text err =
     ''Riju encountered an unexpected error: '' @ err @ [CHR 0x0A, CHR 0x0D, CHR 0x0A, CHR 0x0D]
       @ ''You may want to save your code and refresh the page.'' @ [CHR 0x0A]"

definition sendError_first :: "world \<Rightarrow> session \<Rightarrow> session" where
  "sendError_first w s = send w s TerminalClear"

definition sendError_rest :: "world \<Rightarrow> session \<Rightarrow> string \<Rightarrow> session" where
  "sendError_rest w s err = send w s (TerminalOutput (error_text err))"

text \<open>The caller yields right after the call (the call is its last statement).\<close>

definition sendError :: "world \<Rightarrow> session \<Rightarrow> string \<Rightarrow> session" where
  "sendError w s err = sendError_rest w (sendError_first w s) err"

subsection \<open>\<open>runCode\<close>\<close>

text \<open>
  \<open>this.privilegedSpawn(args)\<close> evaluates the getter \<open>context\<close> first, so it throws
  when no uid is leased.
\<close>

definition with_spawn :: "session \<Rightarrow> argv \<Rightarrow> (command \<Rightarrow> outcome) \<Rightarrow> outcome" where
  "with_spawn s a f =
     (case get_context s of
        Inl err \<Rightarrow> (Some err, s)
      | Inr ctx \<Rightarrow> f (PrivilegedSpawn ctx a))"

definition kill_cmd :: "world \<Rightarrow> nat \<Rightarrow> string" where
  "kill_cmd w pid =
     ''kill -SIGTERM '' @ num_str w pid @ ''; sleep 3; kill -SIGKILL '' @ num_str w pid"

text \<open>
  The block \<open>if (this.term) { ... }\<close>: the kill command is spawned (fire and forget;
  \<open>child_process.spawn\<close> reports a failure through the \<open>error\<close> event, not by
  throwing), the terminal object is marked dead and the field is cleared.
\<close>

definition runCode_kill :: "world \<Rightarrow> session \<Rightarrow> outcome" where
  "runCode_kill w s =
     (case term_h s of
        None \<Rightarrow> (None, s)
      | Some h \<Rightarrow>
          with_spawn s (Bash (kill_cmd w (pty_pid w h))) (\<lambda>c.
            (None, (emit_call (Spawn c) s)
                     \<lparr>term_live := (term_live s)[h := False], term_h := None\<rparr>)))"

text \<open>The command line, from the argument \<open>code\<close> as it was passed.\<close>

definition cmdline_of :: "LangConfig \<Rightarrow> string option \<Rightarrow> string" where
  "cmdline_of cfg code =
     (if truthy code then
        (if truthy (compile cfg)
         then ''( '' @ the (compile cfg) @ '' ) && ( '' @ run cfg @ '' )''
         else run cfg)
      else if truthy (repl cfg) then the (repl cfg)
      else ''echo '' @ [CHR 0x27] @ name cfg
             @ '' has no REPL, press Run to see it in action'' @ [CHR 0x27])"

text \<open>The code that is written to the entry point.\<close>

definition deployed_code :: "LangConfig \<Rightarrow> string option \<Rightarrow> string" where
  "deployed_code cfg code =
     (let c = (case code of None \<Rightarrow> (if createEmpty cfg then [] else template cfg)
                          | Some c \<Rightarrow> c)
      in if c \<noteq> [] \<and> truthy (suffix cfg) then c @ the (suffix cfg) else c)"

text \<open>
  An awaited command: \<open>await this.run(this.privilegedSpawn(args), options)\<close>. The
  getter \<open>context\<close> may throw at once; otherwise the command is started and the
  request waits for it.
\<close>

definition suspend ::
  "world \<Rightarrow> session \<Rightarrow> argv \<Rightarrow> string option \<Rightarrow> (string option \<Rightarrow> task) \<Rightarrow> outcome" where
  "suspend w s a input k =
     with_spawn s a (\<lambda>c.
       (None, (emit_call (Run c input) s)
                \<lparr>waiting := waiting s @ [k (throws w (trace s) (Run c input))]\<rparr>))"

text \<open>The awaited commands: \<open>mkdir -p\<close>, the write of the code, the \<open>ghci-config\<close> hack.\<close>

definition needs_mkdir :: "session \<Rightarrow> bool" where
  "needs_mkdir s = (CHR ''/'' \<in> set (main (config s)))"

definition mkdir_args :: "world \<Rightarrow> session \<Rightarrow> argv" where
  "mkdir_args w s =
     Args [''mkdir'', ''-p'', path_dirname w (homedir s @ ''/'' @ main (config s))]"

definition write_args :: "world \<Rightarrow> session \<Rightarrow> argv" where
  "write_args w s =
     Args [''sh'', ''-c'', ''cat > '' @ path_resolve w (homedir s) (main (config s))]"

definition ghci_input :: string where
  "ghci_input = '':load Main'' @ [CHR 0x0A] @ ''main'' @ [CHR 0x0A]"

definition has_ghci_hack :: "session \<Rightarrow> bool" where
  "has_ghci_hack s =
     ((case hacks (config s) of None \<Rightarrow> False | Some hs \<Rightarrow> ''ghci-config'' \<in> set hs)
      \<and> run (config s) \<noteq> [])"

definition hack_args :: "session \<Rightarrow> string \<Rightarrow> argv" where
  "hack_args s code =
     (if code \<noteq> [] then Args [''sh'', ''-c'', ''cat > '' @ homedir s @ ''/.ghci'']
      else Args [''rm'', ''-f'', homedir s @ ''/.ghci''])"

definition hack_input :: "string \<Rightarrow> string option" where
  "hack_input code = (if code \<noteq> [] then Some ghci_input else None)"

definition await_mkdir :: "world \<Rightarrow> session \<Rightarrow> string \<Rightarrow> string \<Rightarrow> outcome" where
  "await_mkdir w s code cmdline =
     suspend w s (mkdir_args w s) None (Task AwaitMkdir code cmdline)"

definition await_write :: "world \<Rightarrow> session \<Rightarrow> string \<Rightarrow> string \<Rightarrow> outcome" where
  "await_write w s code cmdline =
     suspend w s (write_args w s) (Some code) (Task AwaitWrite code cmdline)"

definition await_hack :: "world \<Rightarrow> session \<Rightarrow> string \<Rightarrow> string \<Rightarrow> outcome" where
  "await_hack w s code cmdline =
     suspend w s (hack_args s code) (hack_input code) (Task AwaitHack code cmdline)"

text \<open>
  The new terminal: a fresh terminal object with \<open>live: true\<close>, stored in the field,
  with its data callback registered. \<open>pty.spawn\<close> may throw.
\<close>

definition runCode_spawn :: "world \<Rightarrow> session \<Rightarrow> string \<Rightarrow> outcome" where
  "runCode_spawn w s cmdline =
     with_spawn s (Bash cmdline) (\<lambda>c.
       (let h = length (term_live s) in
        and_then (call w (PtySpawn h c) s) (\<lambda>s1.
          (None, s1\<lparr>term_live := term_live s1 @ [True],
                    term_h := Some h,
                    listeners := listeners s1 @ [(Pty h, ''data'', OnPtyData h)]\<rparr>))))"

text \<open>The handler of the \<open>try\<close> of \<open>runCode\<close>.\<close>

definition runCode_caught :: "world \<Rightarrow> outcome \<Rightarrow> session" where
  "runCode_caught w r =
     (case r of
        (None, s') \<Rightarrow> s'
      | (Some err, s') \<Rightarrow>
          sendError w (emit_call (ConsoleLog err) (emit_call (Log RunCodeError) s')) err)"

text \<open>
  \<open>runCode\<close> up to its first awaited command: the kill block, the \<open>terminalClear\<close>
  frame, the resolution of the command line and of the code, and the start of
  \<open>mkdir\<close> or of the write.
\<close>

definition runCode_begin_try :: "world \<Rightarrow> session \<Rightarrow> string option \<Rightarrow> outcome" where
  "runCode_begin_try w s code =
     and_then (runCode_kill w s) (\<lambda>s1.
       (let s2 = send w s1 TerminalClear;
            cmdline = cmdline_of (config s) code;
            c = deployed_code (config s) code
        in if needs_mkdir s2 then await_mkdir w s2 c cmdline else await_write w s2 c cmdline))"

definition runCode_begin :: "world \<Rightarrow> session \<Rightarrow> string option \<Rightarrow> session" where
  "runCode_begin w s code = runCode_caught w (runCode_begin_try w s code)"

text \<open>
  A waiting request goes on when its command has finished: a rejected promise throws
  into the handler; after \<open>mkdir\<close> comes the write, after the write the hack or the new
  terminal, after the hack the new terminal.
\<close>

fun resume_try :: "world \<Rightarrow> session \<Rightarrow> task \<Rightarrow> outcome" where
  "resume_try w s (Task st code cmdline (Some err)) = (Some err, s)"
| "resume_try w s (Task AwaitMkdir code cmdline None) = await_write w s code cmdline"
| "resume_try w s (Task AwaitWrite code cmdline None) =
     (if has_ghci_hack s then await_hack w s code cmdline else runCode_spawn w s cmdline)"
| "resume_try w s (Task AwaitHack code cmdline None) = runCode_spawn w s cmdline"

definition resume :: "world \<Rightarrow> session \<Rightarrow> nat \<Rightarrow> session" where
  "resume w s k =
     (if k < length (waiting s)
      then runCode_caught w
             (resume_try w (s\<lparr>waiting := take k (waiting s) @ drop (Suc k) (waiting s)\<rparr>)
                (waiting s ! k))
      else s)"

text \<open>
  \<open>runCode\<close> when nothing else happens to the session while it waits: each command
  it awaits finishes before any other callback runs. \<open>setup\<close> calls it so.
\<close>

definition runCode :: "world \<Rightarrow> session \<Rightarrow> string option \<Rightarrow> session" where
  "runCode w s code =
     (let n = length (waiting s)
      in resume w (resume w (resume w (runCode_begin w s code) n) n) n)"

text \<open>
  The same run written in one piece, each awaited command finishing at once
  (\<open>await_now\<close>); it is shown below to be what \<open>runCode\<close> computes.
\<close>

definition await_now :: "world \<Rightarrow> session \<Rightarrow> argv \<Rightarrow> string option \<Rightarrow> outcome" where
  "await_now w s a input = with_spawn s a (\<lambda>c. call w (Run c input) s)"

definition after_write :: "world \<Rightarrow> session \<Rightarrow> string \<Rightarrow> string \<Rightarrow> outcome" where
  "after_write w s code cmdline =
     (if has_ghci_hack s
      then and_then (await_now w s (hack_args s code) (hack_input code))
             (\<lambda>s'. runCode_spawn w s' cmdline)
      else runCode_spawn w s cmdline)"

definition after_mkdir :: "world \<Rightarrow> session \<Rightarrow> string \<Rightarrow> string \<Rightarrow> outcome" where
  "after_mkdir w s code cmdline =
     and_then (await_now w s (write_args w s) (Some code)) (\<lambda>s'. after_write w s' code cmdline)"

definition runCode_straight :: "world \<Rightarrow> session \<Rightarrow> string option \<Rightarrow> outcome" where
  "runCode_straight w s code =
     and_then (runCode_kill w s) (\<lambda>s1.
       (let s2 = send w s1 TerminalClear;
            cmdline = cmdline_of (config s) code;
            c = deployed_code (config s) code
        in if needs_mkdir s2
           then and_then (await_now w s2 (mkdir_args w s2) None) (\<lambda>s3. after_mkdir w s3 c cmdline)
           else after_mkdir w s2 c cmdline))"

subsection \<open>\<open>receive\<close>\<close>

text \<open>
  \<open>logBadMessage\<close> builds its line with \<open>${msg}\<close>, which may throw before anything is
  logged.
\<close>

definition logBadMessage :: "session \<Rightarrow> json \<Rightarrow> outcome" where
  "logBadMessage s m =
     (if js_string_throws m then (Some to_primitive_error, s)
      else (None, emit_call (Log (MalformedMessage m)) s))"

text \<open>The value switched on: \<open>msg && msg.event\<close>.\<close>

definition switch_value :: "json \<Rightarrow> json option" where
  "switch_value m = (if js_truthy m then js_get m ''event'' else Some m)"

text \<open>
  The \<open>switch\<close> of \<open>receive\<close>, inside the outer \<open>try\<close>. In the case \<open>lspInput\<close> the
  test is \<open>typeof msg.input !== "object" || !msg\<close>, and \<open>msg\<close> is truthy there. In the
  case \<open>runCode\<close> the handler waits for \<open>runCode\<close>, which starts here and never throws
  into \<open>receive\<close>.
\<close>

definition receive_switch :: "world \<Rightarrow> session \<Rightarrow> json \<Rightarrow> outcome" where
  "receive_switch w s m =
     (if switch_value m = Some (JStr ''terminalInput'') then
        (case js_get m ''input'' of
           Some (JStr input) \<Rightarrow>
             (case term_h s of
                None \<Rightarrow> (None, emit_call (Log TerminalInputIgnored) s)
              | Some h \<Rightarrow> call w (PtyWrite h input) s)
         | _ \<Rightarrow> logBadMessage s m)
      else if switch_value m = Some (JStr ''runCode'') then
        (case js_get m ''code'' of
           Some (JStr code) \<Rightarrow> (None, runCode_begin w s (Some code))
         | _ \<Rightarrow> logBadMessage s m)
      else if switch_value m = Some (JStr ''lspInput'') then
        (if js_typeof (js_get m ''input'') \<noteq> ''object'' \<or> \<not> js_truthy m then
           logBadMessage s m
         else if \<not> lsp_h s then (None, emit_call (Log LspInputIgnored) s)
         else call w (LspWrite (the (js_get m ''input''))) s)
      else logBadMessage s m)"

definition receive :: "world \<Rightarrow> session \<Rightarrow> string \<Rightarrow> session" where
  "receive w s event =
     (if tearingDown s then s
      else case json_parse w event of
             None \<Rightarrow> emit_call (Log ParseFailed) s
           | Some m \<Rightarrow>
               (case receive_switch w s m of
                  (None, s') \<Rightarrow> s'
                | (Some err, s') \<Rightarrow>
                    sendError w
                      (emit_call (ConsoleLog err) (emit_call (Log HandlingError) s')) err))"

subsection \<open>\<open>setup\<close> (here \<open>session_setup\<close>) and the constructor\<close>

text \<open>
  The daemon: the process is spawned and stored, and the loop over its two output
  streams registers, in each round, the data callback of the stream and the \<open>exit\<close>
  and \<open>error\<close> callbacks of the process.
\<close>

definition daemon_round :: "emitter \<Rightarrow> (emitter \<times> string \<times> listener) list" where
  "daemon_round stream =
     [(stream, ''data'', OnDaemonData),
      (DaemonProc, ''exit'', OnDaemonExit),
      (DaemonProc, ''error'', OnDaemonError)]"

definition setup_daemon :: "world \<Rightarrow> session \<Rightarrow> outcome" where
  "setup_daemon w s =
     (if truthy (daemon (config s)) then
        with_spawn s (Bash (the (daemon (config s)))) (\<lambda>c.
          (None, (emit_call (Spawn c) s)
                   \<lparr>daemon_h := True,
                    listeners := listeners s
                       @ concat (map daemon_round [DaemonStdout, DaemonStderr])\<rparr>))
      else (None, s))"

text \<open>The language server, with its optional awaited setup command.\<close>

definition setup_lsp_start :: "world \<Rightarrow> session \<Rightarrow> outcome" where
  "setup_lsp_start w s =
     with_spawn s (Bash (the (lsp (config s)))) (\<lambda>c.
       (None, send w ((emit_call (Spawn c) s)
                \<lparr>lsp_h := True,
                 listeners := listeners s
                    @ [(LspReader, ''message'', OnLspMessage),
                       (LspStderr, ''data'', OnLspData),
                       (LspProc, ''exit'', OnLspExit),
                       (LspProc, ''error'', OnLspError)]\<rparr>)
              (LspStarted (homedir s))))"

definition setup_lsp :: "world \<Rightarrow> session \<Rightarrow> outcome" where
  "setup_lsp w s =
     (if truthy (lsp (config s)) then
        and_then
          (if truthy (lspSetup (config s))
           then with_spawn s (Bash (the (lspSetup (config s)))) (\<lambda>c. call w (Run c None) s)
           else (None, s))
          (setup_lsp_start w)
      else (None, s))"

definition setup_subscribe :: "session \<Rightarrow> session" where
  "setup_subscribe s =
     s\<lparr>listeners := listeners s
         @ [(Ws, ''message'', OnWsMessage), (Ws, ''close'', OnWsClose), (Ws, ''error'', OnWsError)]\<rparr>"

text \<open>
  The lease, with \<open>this.uidInfo\<close> set from its result, and the privileged setup of
  the home directory.
\<close>

definition setup_lease :: "world \<Rightarrow> session \<Rightarrow> outcome" where
  "setup_lease w s =
     and_then (call w BorrowUser (s\<lparr>in_allSessions := True\<rparr>)) (\<lambda>s1.
       (None, emit_call (Log (BorrowedUid (borrow_uid w)))
                (s1\<lparr>uidInfo := Some (borrow_uid w)\<rparr>)))"

definition setup_privileged :: "world \<Rightarrow> session \<Rightarrow> outcome" where
  "setup_privileged w s =
     (case get_context s of
        Inl err \<Rightarrow> (Some err, s)
      | Inr ctx \<Rightarrow> call w (Run (PrivilegedSetup ctx) None) s)"

text \<open>
  The body of the \<open>try\<close> of \<open>setup\<close>. \<open>runCode\<close> has its own handler and never
  throws into \<open>setup\<close>.
\<close>

definition setup_try :: "world \<Rightarrow> session \<Rightarrow> outcome" where
  "setup_try w s =
     and_then (setup_lease w s) (\<lambda>s1.
     and_then (setup_privileged w s1) (\<lambda>s2.
     and_then (setup_daemon w (runCode w s2 None)) (\<lambda>s3.
     and_then (setup_lsp w s3) (\<lambda>s4.
     (None, setup_subscribe s4)))))"

text \<open>
  The handler of \<open>setup\<close>: \<open>this.sendError(err)\<close> is not awaited, so its first send
  runs, then \<open>teardown\<close> runs up to its timer, and only then, when \<open>setup\<close> yields at
  \<open>await this.teardown()\<close>, the second send of \<open>sendError\<close> runs.
\<close>

definition setup_catch :: "world \<Rightarrow> session \<Rightarrow> string \<Rightarrow> session" where
  "setup_catch w s err =
     (let s1 = emit_call (ConsoleLog err) (emit_call (Log SetupError) s);
          s2 = sendError_first w s1;
          s3 = teardown_begin s2
      in sendError_rest w s3 err)"

definition session_setup :: "world \<Rightarrow> session \<Rightarrow> session" where
  "session_setup w s =
     (case setup_try w s of
        (None, s') \<Rightarrow> s'
      | (Some err, s') \<Rightarrow> setup_catch w s' err)"

text \<open>The constructor: the fields as initialised, the first log line.\<close>

definition new_session :: "string \<Rightarrow> LangConfig \<Rightarrow> session" where
  "new_session u cfg =
     \<lparr>uuid = u, config = cfg, tearingDown = False, uidInfo = None, term_h = None,
      term_live = [], lsp_h = False, daemon_h = False, listeners = [],
      in_allSessions = False, grace_pending = False, waiting = [],
      trace = [Log CreatingSession]\<rparr>"

definition create :: "world \<Rightarrow> string \<Rightarrow> LangConfig \<Rightarrow> session" where
  "create w u cfg = session_setup w (new_session u cfg)"

subsection \<open>Callbacks and events\<close>

datatype evarg =
    Data string
  | Exit "nat option" "string option"
  | Err string
  | Message json
  | NoArg

text \<open>\<open>`Exited with status ${signal || code}`\<close>.\<close>

definition exit_text :: "world \<Rightarrow> nat option \<Rightarrow> string option \<Rightarrow> string" where
  "exit_text w code signal =
     ''Exited with status '' @
       (if truthy signal then the signal
        else case code of None \<Rightarrow> ''null'' | Some c \<Rightarrow> num_str w c)"

text \<open>
  The bodies of the registered callbacks. The data callback of a terminal reads the
  \<open>live\<close> flag of the terminal object it was created with.
\<close>

fun invoke :: "world \<Rightarrow> session \<Rightarrow> listener \<Rightarrow> evarg \<Rightarrow> session" where
  "invoke w s OnWsMessage (Data ev) = receive w s ev"
| "invoke w s OnWsClose a = teardown_begin s"
| "invoke w s OnWsError (Err e) = teardown_begin (emit_call (Log (WebsocketError e)) s)"
| "invoke w s (OnPtyData h) (Data d) =
     (if h < length (term_live s) \<and> term_live s ! h then send w s (TerminalOutput d) else s)"
| "invoke w s OnDaemonData (Data d) = send w s (ServiceLog ''daemon'' d)"
| "invoke w s OnDaemonExit (Exit code signal) =
     send w s (ServiceFailed ''daemon'' (exit_text w code signal))"
| "invoke w s OnDaemonError (Err e) = send w s (ServiceFailed ''daemon'' e)"
| "invoke w s OnLspMessage (Message j) = send w s (LspOutput j)"
| "invoke w s OnLspData (Data d) = send w s (ServiceLog ''lsp'' d)"
| "invoke w s OnLspExit (Exit code signal) =
     send w s (ServiceFailed ''lsp'' (exit_text w code signal))"
| "invoke w s OnLspError (Err e) = send w s (ServiceFailed ''lsp'' e)"
| "invoke w s l a = s"

text \<open>
  An emitter fires an event: the callbacks registered for it at that moment run in
  the order of their registration.
\<close>

definition registered :: "session \<Rightarrow> emitter \<Rightarrow> string \<Rightarrow> listener list" where
  "registered s em ev = map (\<lambda>r. snd (snd r)) (filter (\<lambda>r. fst r = em \<and> fst (snd r) = ev) (listeners s))"

definition fire :: "world \<Rightarrow> session \<Rightarrow> emitter \<Rightarrow> string \<Rightarrow> evarg \<Rightarrow> session" where
  "fire w s em ev a = foldl (\<lambda>s' l. invoke w s' l a) s (registered s em ev)"

text \<open>
  What can happen to a session once \<open>setup\<close> has returned: an emitter fires, the
  timer of \<open>teardown\<close> elapses, or the command that a waiting Run-Code request awaits
  finishes (the request is named by its place among the waiting ones).
\<close>

datatype event = Fire emitter string evarg | GraceElapsed | Resume nat

fun step :: "world \<Rightarrow> session \<Rightarrow> event \<Rightarrow> session" where
  "step w s (Fire em ev a) = fire w s em ev a"
| "step w s GraceElapsed = grace_elapsed w s"
| "step w s (Resume k) = resume w s k"

definition run_events :: "world \<Rightarrow> session \<Rightarrow> event list \<Rightarrow> session" where
  "run_events w s evs = foldl (step w) s evs"

text \<open>The session is ready when it listens to the messages of the transport.\<close>

definition ready :: "session \<Rightarrow> bool" where
  "ready s = ((Ws, ''message'', OnWsMessage) \<in> set (listeners s) \<and> \<not> tearingDown s)"

text \<open>Counting calls in a trace.\<close>

definition count_calls :: "(effect \<Rightarrow> bool) \<Rightarrow> session \<Rightarrow> nat" where
  "count_calls p s = length (filter p (trace s))"

text \<open>The frames handed to the transport, in order.\<close>

fun frame_of :: "effect \<Rightarrow> msg option" where
  "frame_of (WsSend m) = Some m"
| "frame_of _ = None"

definition frames :: "effect list \<Rightarrow> msg list" where
  "frames es = List.map_filter frame_of es"

text \<open>Numbers in decimal, as \<open>`${pid}`\<close> prints them.\<close>

definition digit :: "nat \<Rightarrow> char" where
  "digit n = (''0123456789'' ! n)"

function decimal :: "nat \<Rightarrow> string" where
  "decimal n = (if n < 10 then [digit n] else decimal (n div 10) @ [digit (n mod 10)])"
  by pat_completeness auto
termination
  by (relation "measure id") auto

declare decimal.simps [simp del]

text \<open>A world in which no call throws, for concrete runs.\<close>

definition calm :: world where
  "calm = \<lparr>throws = (\<lambda>tr e. None), json_parse = (\<lambda>ev. None), borrow_uid = 1000,
           pty_pid = (\<lambda>h. 4000 + h), num_str = decimal,
           path_dirname = (\<lambda>p. p), path_resolve = (\<lambda>d f. d @ ''/'' @ f)\<rparr>"

text \<open>Two descriptors for concrete runs: one without and one with a daemon.\<close>

definition plain_lang :: LangConfig where
  "plain_lang =
     \<lparr>name = ''Plain'', repl = Some ''plain-repl'', main = ''main.txt'', suffix = Some ''S'',
      createEmpty = True, compile = None, run = ''plain main.txt'', template = ''hello'',
      hacks = None, daemon = None, lsp = None, lspSetup = None\<rparr>"

definition daemon_lang :: LangConfig where
  "daemon_lang = plain_lang\<lparr>daemon := Some ''plain-daemon'', lsp := Some ''plain-lsp''\<rparr>"

subsection \<open>Worlds and frames for concrete runs\<close>

text \<open>The lease pool has no uid to give: \<open>borrowUser\<close> rejects.\<close>

definition no_lease :: world where
  "no_lease = calm\<lparr>throws := (\<lambda>tr e. if e = BorrowUser then Some ''no uid left'' else None)\<rparr>"

text \<open>The privileged setup command fails.\<close>

fun is_privileged_setup :: "effect \<Rightarrow> bool" where
  "is_privileged_setup (Run (PrivilegedSetup c) i) = True"
| "is_privileged_setup _ = False"

definition no_homedir :: world where
  "no_homedir =
     calm\<lparr>throws := (\<lambda>tr e. if is_privileged_setup e then Some ''setup failed'' else None)\<rparr>"

text \<open>Every command that is given the code on its standard input fails.\<close>

fun is_code_write :: "effect \<Rightarrow> bool" where
  "is_code_write (Run c (Some i)) = True"
| "is_code_write _ = False"

definition no_deploy :: world where
  "no_deploy =
     calm\<lparr>throws := (\<lambda>tr e. if is_code_write e then Some ''disk full'' else None)\<rparr>"

text \<open>A world whose \<open>JSON.parse\<close> knows one frame.\<close>

definition parsing :: "string \<Rightarrow> json \<Rightarrow> world \<Rightarrow> world" where
  "parsing raw j w = w\<lparr>json_parse := (\<lambda>ev. if ev = raw then Some j else json_parse w ev)\<rparr>"

definition null_lsp_frame :: string where
  \<open>null_lsp_frame = ''{"event":"lspInput","input":null}''\<close>

definition null_lsp_json :: json where
  "null_lsp_json = JObj [(''event'', JStr ''lspInput''), (''input'', JNull)]"

definition input_frame :: string where
  \<open>input_frame = ''{"event":"terminalInput","input":"ls"}''\<close>

definition input_json :: json where
  "input_json = JObj [(''event'', JStr ''terminalInput''), (''input'', JStr ''ls'')]"

definition run_frame :: string where
  \<open>run_frame = ''{"event":"runCode","code":"print(1+1)"}''\<close>

definition run_json :: json where
  "run_json = JObj [(''event'', JStr ''runCode''), (''code'', JStr ''print(1+1)'')]"

definition bare_run_frame :: string where
  \<open>bare_run_frame = ''{"event":"runCode"}''\<close>

definition bare_run_json :: json where
  "bare_run_json = JObj [(''event'', JStr ''runCode'')]"

subsection \<open>The resolution of Run-Code as the specification words it\<close>

text \<open>
  The command line as the specification states it: the run command, wrapped when a
  compile command exists, if code is supplied; else the REPL command if one exists;
  else the message command.
\<close>

definition spec_cmdline :: "LangConfig \<Rightarrow> string option \<Rightarrow> string" where
  "spec_cmdline cfg code =
     (case code of
        Some c \<Rightarrow>
          (case compile cfg of
             Some cc \<Rightarrow> ''( '' @ cc @ '' ) && ( '' @ run cfg @ '' )''
           | None \<Rightarrow> run cfg)
      | None \<Rightarrow>
          (case repl cfg of
             Some r \<Rightarrow> r
           | None \<Rightarrow> ''echo '' @ [CHR 0x27] @ name cfg
                       @ '' has no REPL, press Run to see it in action'' @ [CHR 0x27]))"

text \<open>
  The deployed code as the specification states it: the supplied code, or the empty
  program or the template when none is supplied, with the suffix appended whenever
  one is configured.
\<close>

definition spec_deployed_code :: "LangConfig \<Rightarrow> string option \<Rightarrow> string" where
  "spec_deployed_code cfg code =
     (let c = (case code of None \<Rightarrow> (if createEmpty cfg then [] else template cfg)
                          | Some c \<Rightarrow> c)
      in case suffix cfg of None \<Rightarrow> c | Some sfx \<Rightarrow> c @ sfx)"

text \<open>An optional string that is empty counts as absent (it is falsy).\<close>

definition nonempty :: "string option \<Rightarrow> string option" where
  "nonempty x = (if x = Some [] then None else x)"

subsection \<open>Well-formed sessions\<close>

text \<open>
  What holds of every session that the class can reach: the field \<open>term\<close> refers to a
  terminal object that exists and was started under a leased uid, and the callbacks
  registered on a pseudo-terminal are the data callbacks of that terminal.
\<close>

definition pty_listener_ok :: "emitter \<times> string \<times> listener \<Rightarrow> bool" where
  "pty_listener_ok r = (case fst r of Pty k \<Rightarrow> snd (snd r) = OnPtyData k | _ \<Rightarrow> True)"

definition wf :: "session \<Rightarrow> bool" where
  "wf s =
     ((case term_h s of
         None \<Rightarrow> True
       | Some h \<Rightarrow> h < length (term_live s) \<and> uidInfo s \<noteq> None)
      \<and> list_all pty_listener_ok (listeners s))"

text \<open>
  How a handler may change a session: terminal objects are only added, a terminal
  object that is dead stays dead, callbacks are only added, the teardown flag is not
  reset, an empty field \<open>term\<close> stays empty unless a terminal object is added, and a
  well-formed session stays well-formed.
\<close>

definition evolves :: "session \<Rightarrow> session \<Rightarrow> bool" where
  "evolves s s' =
     (length (term_live s) \<le> length (term_live s')
      \<and> (\<forall>h < length (term_live s). term_live s' ! h \<longrightarrow> term_live s ! h)
      \<and> set (listeners s) \<subseteq> set (listeners s')
      \<and> (tearingDown s \<longrightarrow> tearingDown s')
      \<and> (term_h s = None \<and> length (term_live s') = length (term_live s) \<longrightarrow> term_h s' = None)
      \<and> (wf s \<longrightarrow> wf s'))"

subsection \<open>More worlds and events for concrete runs\<close>

text \<open>The calls that start a pseudo-terminal.\<close>

fun is_pty_spawn :: "effect \<Rightarrow> bool" where
  "is_pty_spawn (PtySpawn k c) = True"
| "is_pty_spawn _ = False"

text \<open>The terminal refuses input: \<open>pty.write\<close> throws.\<close>

fun is_pty_write :: "effect \<Rightarrow> bool" where
  "is_pty_write (PtyWrite h i) = True"
| "is_pty_write _ = False"

definition no_pty_write :: world where
  "no_pty_write =
     calm\<lparr>throws := (\<lambda>tr e. if is_pty_write e then Some ''pty closed'' else None)\<rparr>"

text \<open>The command that is given one particular code on its standard input fails.\<close>

fun writes_code :: "string \<Rightarrow> effect \<Rightarrow> bool" where
  "writes_code c (Run cmd (Some i)) = (i = c)"
| "writes_code c _ = False"

definition rejects_code :: "string \<Rightarrow> world" where
  "rejects_code c =
     calm\<lparr>throws := (\<lambda>tr e. if writes_code c e then Some ''disk full'' else None)\<rparr>"

text \<open>A second Run-Code request, with another code.\<close>

definition other_run_frame :: string where
  \<open>other_run_frame = ''{"event":"runCode","code":"print(2)"}''\<close>

definition other_run_json :: json where
  "other_run_json = JObj [(''event'', JStr ''runCode''), (''code'', JStr ''print(2)'')]"

text \<open>A frame whose object has a member \<open>toString\<close>.\<close>

definition tostring_frame :: string where
  \<open>tostring_frame = ''{"toString":1}''\<close>

definition tostring_json :: json where
  "tostring_json = JObj [(''toString'', JNum 1)]"

text \<open>The transport breaks once the first terminal runs: every later \<open>ws.send\<close> throws.\<close>

fun is_send :: "effect \<Rightarrow> bool" where
  "is_send (WsSend m) = True"
| "is_send _ = False"

definition send_breaks :: world where
  "send_breaks =
     calm\<lparr>throws := (\<lambda>tr e. if is_send e \<and> list_ex is_pty_spawn tr
                               then Some ''socket closed'' else None)\<rparr>"

text \<open>
  A descriptor with a language server that has a setup command, and a world in which
  every awaited shell command line (the setup command of the language server is the
  only one) fails.
\<close>

definition lsp_lang :: LangConfig where
  "lsp_lang = plain_lang\<lparr>lsp := Some ''plain-lsp'', lspSetup := Some ''plain-lsp-setup''\<rparr>"

fun is_bash_run :: "effect \<Rightarrow> bool" where
  "is_bash_run (Run (PrivilegedSpawn c (Bash b)) i) = True"
| "is_bash_run _ = False"

definition no_lsp_setup :: world where
  "no_lsp_setup =
     calm\<lparr>throws := (\<lambda>tr e. if is_bash_run e then Some ''lsp setup failed'' else None)\<rparr>"

subsection \<open>The calls of the release sequence\<close>

fun is_timer :: "effect \<Rightarrow> bool" where
  "is_timer (SetTimeout n) = True"
| "is_timer _ = False"

fun is_cleanup :: "effect \<Rightarrow> bool" where
  "is_cleanup (Run (PrivilegedTeardown c) i) = True"
| "is_cleanup _ = False"

fun is_return :: "effect \<Rightarrow> bool" where
  "is_return (ReturnUID u) = True"
| "is_return _ = False"

fun is_terminate :: "effect \<Rightarrow> bool" where
  "is_terminate WsTerminate = True"
| "is_terminate _ = False"

text \<open>The privileged setup fails, and so does the privileged cleanup.\<close>

definition no_homedir_no_cleanup :: world where
  "no_homedir_no_cleanup =
     calm\<lparr>throws := (\<lambda>tr e. if is_privileged_setup e then Some ''setup failed''
                               else if is_cleanup e then Some ''cleanup failed'' else None)\<rparr>"

definition is_release :: "effect \<Rightarrow> bool" where
  "is_release e = (is_cleanup e \<or> is_return e \<or> is_terminate e)"

text \<open>The calls of the release sequence that a session has made, and its timers.\<close>

definition releases :: "session \<Rightarrow> effect list" where
  "releases s = filter is_release (trace s)"

definition timers :: "session \<Rightarrow> effect list" where
  "timers s = filter is_timer (trace s)"

text \<open>The complete release sequence of a session that holds a uid.\<close>

definition release_seq :: "session \<Rightarrow> effect list" where
  "release_seq s =
     (case uidInfo s of
        None \<Rightarrow> []
      | Some u \<Rightarrow> [Run (PrivilegedTeardown (Context u (uuid s))) None, ReturnUID u, WsTerminate])"

text \<open>
  How a handler other than the timer of \<open>teardown\<close> may change a session: it keeps
  the lease, the identifier and the language, it makes no call of the release
  sequence, and it starts the timer exactly when it sets the teardown flag.
\<close>

definition quiet :: "session \<Rightarrow> session \<Rightarrow> bool" where
  "quiet s s' =
     (uidInfo s' = uidInfo s \<and> uuid s' = uuid s \<and> config s' = config s
      \<and> releases s' = releases s
      \<and> (if tearingDown s \<or> \<not> tearingDown s'
          then tearingDown s' = tearingDown s \<and> grace_pending s' = grace_pending s
               \<and> timers s' = timers s
          else grace_pending s' \<and> timers s' = timers s @ [SetTimeout 5000]))"

text \<open>
  The state of teardown: before it begins nothing of it has happened; once it has
  begun the timer has been started once, nothing is released while the timer runs,
  and what has been released is an initial part of the release sequence.
\<close>

definition td_inv :: "session \<Rightarrow> bool" where
  "td_inv s =
     (if tearingDown s
      then timers s = [SetTimeout 5000]
           \<and> (if grace_pending s then releases s = []
               else take (length (releases s)) (release_seq s) = releases s)
      else \<not> grace_pending s \<and> releases s = [] \<and> timers s = [])"

text \<open>
  Once the timer of teardown has elapsed in a session that holds a uid, at least the
  first \<open>n\<close> calls of the release sequence have been made.
\<close>

definition release_reached :: "nat \<Rightarrow> session \<Rightarrow> bool" where
  "release_reached n s =
     (tearingDown s \<and> \<not> grace_pending s \<and> uidInfo s \<noteq> None \<longrightarrow> n \<le> length (releases s))"

subsection \<open>Malformed frames as the specification words them\<close>

text \<open>The event tag of a structured message: a string member \<open>event\<close> of an object.\<close>

definition frame_tag :: "json \<Rightarrow> string option" where
  "frame_tag m =
     (case m of
        JObj kvs \<Rightarrow> (case map_of kvs ''event'' of Some (JStr t) \<Rightarrow> Some t | _ \<Rightarrow> None)
      | _ \<Rightarrow> None)"

fun is_string :: "json option \<Rightarrow> bool" where
  "is_string (Some (JStr s)) = True"
| "is_string _ = False"

text \<open>An object in the sense of the language: an object or an array, not \<open>null\<close>.\<close>

fun is_object :: "json option \<Rightarrow> bool" where
  "is_object (Some (JObj kvs)) = True"
| "is_object (Some (JArr xs)) = True"
| "is_object _ = False"

text \<open>
  A parsed frame is malformed when its tag is missing or unrecognized, or when the
  field that its tag requires (\<open>input: string\<close>, \<open>code: string\<close>, \<open>input: object\<close>) is
  missing or has another shape.
\<close>

definition spec_malformed :: "json \<Rightarrow> bool" where
  "spec_malformed m =
     (case frame_tag m of
        None \<Rightarrow> True
      | Some t \<Rightarrow>
          if t = ''terminalInput'' then \<not> is_string (js_get m ''input'')
          else if t = ''runCode'' then \<not> is_string (js_get m ''code'')
          else if t = ''lspInput'' then \<not> is_object (js_get m ''input'')
          else True)"

subsection \<open>Subscription to the transport\<close>

text \<open>No callback is registered on the transport.\<close>

definition unsubscribed :: "session \<Rightarrow> bool" where
  "unsubscribed s = list_all (\<lambda>r. fst r \<noteq> Ws) (listeners s)"

section \<open>Properties\<close>

subsection \<open>A Run-Code request that runs alone\<close>

lemma waiting_emit_call [simp]: "waiting (emit_call e s) = waiting s"
  by (simp add: emit_call_def)

lemma waiting_teardown_begin [simp]: "waiting (teardown_begin s) = waiting s"
  by (simp add: teardown_begin_def emit_call_def)

lemma waiting_send [simp]: "waiting (send w s m) = waiting s"
  by (simp add: send_def call_def split: option.splits)

lemma waiting_sendError [simp]: "waiting (sendError w s err) = waiting s"
  by (simp add: sendError_def sendError_first_def sendError_rest_def)

lemma waiting_caught [simp]: "waiting (runCode_caught w r) = waiting (snd r)"
  by (cases r) (simp add: runCode_caught_def split: option.splits)

lemma waiting_and_then:
  "waiting (snd r) = ws \<Longrightarrow> (\<And>s1. waiting s1 = ws \<Longrightarrow> waiting (snd (f s1)) = ws)
   \<Longrightarrow> waiting (snd (and_then r f)) = ws"
  by (cases r) (auto simp: and_then_def split: option.splits)

lemma waiting_await_now [simp]: "waiting (snd (await_now w s a i)) = waiting s"
  by (simp add: await_now_def with_spawn_def call_def split: sum.splits)

lemma waiting_kill [simp]: "waiting (snd (runCode_kill w s)) = waiting s"
  by (simp add: runCode_kill_def with_spawn_def emit_call_def split: option.splits sum.splits)

lemma waiting_spawn [simp]: "waiting (snd (runCode_spawn w s cl)) = waiting s"
  by (simp add: runCode_spawn_def with_spawn_def and_then_def call_def emit_call_def Let_def
        split: sum.splits option.splits)

lemma waiting_after_write [simp]: "waiting (snd (after_write w s c cl)) = waiting s"
  unfolding after_write_def
  by (auto intro!: waiting_and_then)

lemma waiting_after_mkdir [simp]: "waiting (snd (after_mkdir w s c cl)) = waiting s"
  unfolding after_mkdir_def
  by (rule waiting_and_then) simp_all

lemma resume_none: "length (waiting s) \<le> k \<Longrightarrow> resume w s k = s"
  by (simp add: resume_def)

text \<open>A request that has just begun to wait is the last of the waiting ones.\<close>

lemma resume_suspended:
  "resume w (runCode_caught w (suspend w x a i (Task st c cl))) (length (waiting x))
   = runCode_caught w
       (and_then (await_now w x a i) (\<lambda>x'. resume_try w x' (Task st c cl None)))"
proof (cases "get_context x")
  case (Inl err)
  then show ?thesis
    by (simp add: suspend_def await_now_def with_spawn_def and_then_def resume_none)
next
  case (Inr ctx)
  let ?e = "Run (PrivilegedSpawn ctx a) i"
  show ?thesis
  proof (cases "throws w (trace x) ?e")
    case None
    with Inr show ?thesis
      by (simp add: suspend_def await_now_def with_spawn_def and_then_def call_def
            runCode_caught_def resume_def nth_append emit_call_def)
  next
    case (Some err)
    with Inr show ?thesis
      by (simp add: suspend_def await_now_def with_spawn_def and_then_def call_def
            runCode_caught_def resume_def nth_append emit_call_def)
  qed
qed

lemma resume_after:
  assumes "waiting (snd r) = ws"
  shows "resume w (runCode_caught w (and_then r (\<lambda>x. suspend w x a i (Task st c cl)))) (length ws)
         = runCode_caught w
             (and_then r (\<lambda>x. and_then (await_now w x a i)
                                 (\<lambda>x'. resume_try w x' (Task st c cl None))))"
proof (cases r)
  case (Pair e y)
  with assms have wy: "waiting y = ws" by simp
  show ?thesis
  proof (cases e)
    case None
    with Pair resume_suspended [of w y a i st c cl] wy show ?thesis
      by (simp add: and_then_def)
  next
    case (Some err)
    with Pair wy show ?thesis by (simp add: and_then_def resume_none)
  qed
qed


lemma resume_bind:
  assumes "waiting (snd r) = ws"
    and "\<And>x. waiting x = ws \<Longrightarrow>
           resume w (runCode_caught w (f x)) (length ws) = runCode_caught w (g x)"
  shows "resume w (runCode_caught w (and_then r f)) (length ws) = runCode_caught w (and_then r g)"
proof (cases r)
  case (Pair e y)
  with assms(1) have wy: "waiting y = ws" by simp
  show ?thesis
  proof (cases e)
    case None
    with Pair assms(2) [OF wy] show ?thesis by (simp add: and_then_def)
  next
    case (Some err)
    with Pair wy show ?thesis by (simp add: and_then_def resume_none)
  qed
qed

lemma resume_done:
  "waiting (snd r) = ws \<Longrightarrow> resume w (runCode_caught w r) (length ws) = runCode_caught w r"
  by (simp add: resume_none)

lemma resume_hack:
  "waiting x = ws \<Longrightarrow>
   resume w (runCode_caught w (await_hack w x c cl)) (length ws)
   = runCode_caught w (and_then (await_now w x (hack_args x c) (hack_input c))
                         (\<lambda>x'. runCode_spawn w x' cl))"
  using resume_suspended [of w x "hack_args x c" "hack_input c" AwaitHack c cl]
  by (simp add: await_hack_def)

lemma resume_written:
  assumes "waiting x = ws"
  shows "resume w (runCode_caught w (resume_try w x (Task AwaitWrite c cl None))) (length ws)
         = runCode_caught w (after_write w x c cl)"
proof (cases "has_ghci_hack x")
  case True
  with resume_hack [OF assms] show ?thesis by (simp add: after_write_def)
next
  case False
  with assms show ?thesis by (simp add: after_write_def resume_none)
qed

lemma resume_write:
  "waiting x = ws \<Longrightarrow>
   resume w (runCode_caught w (await_write w x c cl)) (length ws)
   = runCode_caught w (and_then (await_now w x (write_args w x) (Some c))
                         (\<lambda>x'. resume_try w x' (Task AwaitWrite c cl None)))"
  using resume_suspended [of w x "write_args w x" "Some c" AwaitWrite c cl]
  by (simp add: await_write_def)

lemma resume_write_twice:
  assumes "waiting x = ws"
  shows "resume w (resume w (runCode_caught w (await_write w x c cl)) (length ws)) (length ws)
         = runCode_caught w (after_mkdir w x c cl)"
  unfolding resume_write [OF assms] after_mkdir_def
  by (rule resume_bind, simp add: assms, rule resume_written)

lemma resume_write_thrice:
  assumes "waiting x = ws"
  shows "resume w (resume w (resume w (runCode_caught w (await_write w x c cl)) (length ws))
           (length ws)) (length ws)
         = runCode_caught w (after_mkdir w x c cl)"
  unfolding resume_write_twice [OF assms]
  by (rule resume_done) (simp add: assms)

lemma resume_mkdir:
  "waiting x = ws \<Longrightarrow>
   resume w (runCode_caught w (await_mkdir w x c cl)) (length ws)
   = runCode_caught w (and_then (await_now w x (mkdir_args w x) None)
                         (\<lambda>x'. await_write w x' c cl))"
  using resume_suspended [of w x "mkdir_args w x" None AwaitMkdir c cl]
  by (simp add: await_mkdir_def)

lemma resume_mkdir_thrice:
  assumes "waiting x = ws"
  shows "resume w (resume w (resume w (runCode_caught w (await_mkdir w x c cl)) (length ws))
           (length ws)) (length ws)
         = runCode_caught w (and_then (await_now w x (mkdir_args w x) None)
                               (\<lambda>x'. after_mkdir w x' c cl))"
proof -
  let ?r = "await_now w x (mkdir_args w x) None"
  have wr: "waiting (snd ?r) = ws" using assms by simp
  have two: "resume w (runCode_caught w (and_then ?r (\<lambda>x'. await_write w x' c cl))) (length ws)
             = runCode_caught w (and_then ?r (\<lambda>x'. and_then (await_now w x' (write_args w x') (Some c))
                         (\<lambda>x''. resume_try w x'' (Task AwaitWrite c cl None))))"
    by (rule resume_bind [OF wr]) (rule resume_write)
  have three: "resume w (runCode_caught w (and_then ?r (\<lambda>x'. and_then (await_now w x' (write_args w x') (Some c))
                         (\<lambda>x''. resume_try w x'' (Task AwaitWrite c cl None))))) (length ws)
             = runCode_caught w (and_then ?r (\<lambda>x'. after_mkdir w x' c cl))"
    unfolding after_mkdir_def
    by (rule resume_bind [OF wr], rule resume_bind, simp, rule resume_written)
  show ?thesis
    unfolding resume_mkdir [OF assms] two three ..
qed

text \<open>
  A request that runs alone computes what the handler computes when it is read as
  one piece.
\<close>

lemma runCode_alone: "runCode w s code = runCode_caught w (runCode_straight w s code)"
proof -
  let ?n = "length (waiting s)"
  let ?c = "deployed_code (config s) code"
  let ?cl = "cmdline_of (config s) code"
  let ?f = "\<lambda>s1. if needs_mkdir (send w s1 TerminalClear)
                  then await_mkdir w (send w s1 TerminalClear) ?c ?cl
                  else await_write w (send w s1 TerminalClear) ?c ?cl"
  let ?g = "\<lambda>s1. if needs_mkdir (send w s1 TerminalClear)
                  then and_then (await_now w (send w s1 TerminalClear)
                                   (mkdir_args w (send w s1 TerminalClear)) None)
                         (\<lambda>s3. after_mkdir w s3 ?c ?cl)
                  else after_mkdir w (send w s1 TerminalClear) ?c ?cl"
  have step: "resume w (resume w (resume w (runCode_caught w (?f x)) ?n) ?n) ?n
              = runCode_caught w (?g x)" if "waiting x = waiting s" for x
    using that resume_mkdir_thrice [of "send w x TerminalClear" "waiting s" w ?c ?cl]
      resume_write_thrice [of "send w x TerminalClear" "waiting s" w ?c ?cl]
    by simp
  have "resume w (resume w (resume w (runCode_caught w (and_then (runCode_kill w s) ?f)) ?n) ?n) ?n
        = runCode_caught w (and_then (runCode_kill w s) ?g)"
  proof (cases "runCode_kill w s")
    case (Pair e y)
    have wy: "waiting y = waiting s" using Pair waiting_kill [of w s] by simp
    show ?thesis
    proof (cases e)
      case None
      with Pair step [OF wy] show ?thesis by (simp add: and_then_def)
    next
      case (Some err)
      with Pair wy show ?thesis by (simp add: and_then_def resume_none)
    qed
  qed
  then show ?thesis
    by (simp add: runCode_def runCode_begin_def runCode_begin_try_def runCode_straight_def Let_def)
qed

subsection \<open>Unfolding the handlers on concrete sessions\<close>

lemmas run_defs =
  run_events_def create_def session_setup_def setup_try_def setup_catch_def new_session_def
  setup_lease_def setup_privileged_def setup_daemon_def setup_lsp_def setup_lsp_start_def
  setup_subscribe_def and_then_def call_def emit_call_def get_context_def with_spawn_def
  runCode_alone runCode_straight_def after_mkdir_def after_write_def await_now_def
  runCode_begin_def runCode_begin_try_def runCode_caught_def runCode_kill_def
  resume_def suspend_def needs_mkdir_def mkdir_args_def write_args_def hack_args_def
  hack_input_def await_mkdir_def await_write_def has_ghci_hack_def
  await_hack_def runCode_spawn_def send_def sendError_def
  sendError_first_def sendError_rest_def teardown_begin_def teardown_finish_def
  teardown_release_def grace_elapsed_def teardown_def receive_def receive_switch_def
  switch_value_def logBadMessage_def fire_def registered_def daemon_round_def
  deployed_code_def cmdline_of_def ready_def Let_def

lemmas world_defs =
  calm_def no_lease_def no_homedir_def no_deploy_def no_pty_write_def rejects_code_def
  send_breaks_def no_lsp_setup_def no_homedir_no_cleanup_def
  parsing_def plain_lang_def daemon_lang_def lsp_lang_def

lemmas frame_defs = frames_def List.map_filter_def exit_text_def homedir_def

subsection \<open>The teardown flag\<close>

lemma tearingDown_emit_call [simp]: "tearingDown (emit_call e s) = tearingDown s"
  by (simp add: emit_call_def)

lemma teardown_begin_sets [simp]: "tearingDown (teardown_begin s)"
  by (simp add: teardown_begin_def)

lemma teardown_begin_idle [simp]: "tearingDown s \<Longrightarrow> teardown_begin s = s"
  by (simp add: teardown_begin_def)

lemma send_idle [simp]: "tearingDown s \<Longrightarrow> send w s m = s"
  by (simp add: send_def)

lemma receive_idle [simp]: "tearingDown s \<Longrightarrow> receive w s ev = s"
  by (simp add: receive_def)

lemma invoke_idle:
  "tearingDown s \<Longrightarrow> \<forall>e. a \<noteq> Err e \<Longrightarrow> invoke w s l a = s"
  by (cases "(w, s, l, a)" rule: invoke.cases) simp_all

lemma foldl_invoke_idle:
  "tearingDown s \<Longrightarrow> \<forall>e. a \<noteq> Err e \<Longrightarrow> foldl (\<lambda>s' l. invoke w s' l a) s ls = s"
  by (induction ls) (simp_all add: invoke_idle)

subsection \<open>Every handler keeps a session well-formed\<close>

lemma evolves_refl [simp]: "evolves s s"
  by (simp add: evolves_def)

lemma evolves_trans: "evolves a b \<Longrightarrow> evolves b c \<Longrightarrow> evolves a c"
proof -
  assume ab: "evolves a b" and bc: "evolves b c"
  have l: "length (term_live a) \<le> length (term_live b)" "length (term_live b) \<le> length (term_live c)"
    using ab bc by (simp_all add: evolves_def)
  have "term_h c = None" if "term_h a = None" "length (term_live c) = length (term_live a)"
  proof -
    from l that(2) have "length (term_live b) = length (term_live a)" by simp
    with ab that(1) have "term_h b = None" by (simp add: evolves_def)
    moreover from l that(2) have "length (term_live c) = length (term_live b)" by simp
    ultimately show ?thesis using bc by (simp add: evolves_def)
  qed
  moreover have "term_live a ! h" if "h < length (term_live a)" "term_live c ! h" for h
  proof -
    from that(1) l have "h < length (term_live b)" by simp
    with bc that(2) have "term_live b ! h" by (simp add: evolves_def)
    with ab that(1) show ?thesis by (simp add: evolves_def)
  qed
  moreover have "length (term_live a) \<le> length (term_live c)" using l by simp
  moreover have "set (listeners a) \<subseteq> set (listeners c)"
    using ab bc by (auto simp: evolves_def)
  moreover have "tearingDown a \<longrightarrow> tearingDown c" using ab bc by (simp add: evolves_def)
  moreover have "wf a \<longrightarrow> wf c" using ab bc by (simp add: evolves_def)
  ultimately show ?thesis unfolding evolves_def by blast
qed

lemma evolves_same:
  "term_live s' = term_live s \<Longrightarrow> term_h s' = term_h s \<Longrightarrow> uidInfo s' = uidInfo s
   \<Longrightarrow> listeners s' = listeners s \<Longrightarrow> (tearingDown s \<longrightarrow> tearingDown s') \<Longrightarrow> evolves s s'"
  by (auto simp: evolves_def wf_def split: option.splits)

lemma evolves_emit_call [simp]: "evolves s (emit_call e s)"
  by (rule evolves_same) (simp_all add: emit_call_def)

lemma evolves_call [simp]: "evolves s (snd (call w e s))"
  by (simp add: call_def)

lemma evolves_and_then:
  "evolves s (snd r) \<Longrightarrow> (\<And>s1. evolves s1 (snd (f s1))) \<Longrightarrow> evolves s (snd (and_then r f))"
  by (cases r) (auto simp: and_then_def split: option.splits intro: evolves_trans)

lemma evolves_with_spawn:
  "(\<And>c. uidInfo s \<noteq> None \<Longrightarrow> evolves s (snd (f c))) \<Longrightarrow> evolves s (snd (with_spawn s a f))"
  by (auto simp: with_spawn_def get_context_def split: option.splits)

lemma evolves_teardown_begin [simp]: "evolves s (teardown_begin s)"
  by (rule evolves_same) (simp_all add: teardown_begin_def emit_call_def)

lemma evolves_send [simp]: "evolves s (send w s m)"
  by (rule evolves_same)
     (simp_all add: send_def call_def teardown_begin_def emit_call_def split: option.splits)

lemma evolves_sendError [simp]: "evolves s (sendError w s err)"
  unfolding sendError_def sendError_first_def sendError_rest_def
  by (rule evolves_trans [OF evolves_send evolves_send])

lemma evolves_release [simp]: "evolves s (snd (teardown_release w s))"
  by (auto simp: teardown_release_def split: sum.splits option.splits intro!: evolves_and_then)

lemma evolves_finish [simp]: "evolves s (teardown_finish w s)"
proof -
  have a: "evolves s (s\<lparr>grace_pending := False\<rparr>)" by (rule evolves_same) simp_all
  have b: "evolves (s\<lparr>grace_pending := False\<rparr>)
             (snd (teardown_release w (s\<lparr>grace_pending := False\<rparr>)))"
    by simp
  obtain r s' where p: "teardown_release w (s\<lparr>grace_pending := False\<rparr>) = (r, s')"
    by (cases "teardown_release w (s\<lparr>grace_pending := False\<rparr>)")
  with evolves_trans [OF a b] have e: "evolves s s'" by simp
  have "evolves s (emit_call (ConsoleLog err) (emit_call (Log TeardownError) s'))" for err
    by (rule evolves_trans [OF e evolves_trans [OF evolves_emit_call evolves_emit_call]])
  with e show ?thesis by (cases r) (simp_all add: teardown_finish_def p)
qed

lemma evolves_grace [simp]: "evolves s (grace_elapsed w s)"
  by (simp add: grace_elapsed_def)

lemma nth_update_False: "k < length xs \<Longrightarrow> xs[h := False] ! k \<Longrightarrow> xs ! k"
  by (cases "h = k") simp_all

lemma evolves_kill [simp]: "evolves s (snd (runCode_kill w s))"
proof (cases "term_h s")
  case None
  then show ?thesis by (simp add: runCode_kill_def)
next
  case (Some h)
  show ?thesis
    unfolding runCode_kill_def Some option.case
    by (rule evolves_with_spawn)
       (auto simp: evolves_def wf_def emit_call_def dest: nth_update_False)
qed

lemma evolves_suspend [simp]: "evolves s (snd (suspend w s a i k))"
  unfolding suspend_def
  by (rule evolves_with_spawn, simp, rule evolves_same) (simp_all add: emit_call_def)

lemma evolves_await_mkdir [simp]: "evolves s (snd (await_mkdir w s c cl))"
  by (simp add: await_mkdir_def)

lemma evolves_await_write [simp]: "evolves s (snd (await_write w s c cl))"
  by (simp add: await_write_def)

lemma evolves_await_hack [simp]: "evolves s (snd (await_hack w s c cl))"
  by (simp add: await_hack_def)

lemma evolves_spawn [simp]: "evolves s (snd (runCode_spawn w s c))"
  unfolding runCode_spawn_def
  by (rule evolves_with_spawn)
     (auto simp: Let_def and_then_def call_def emit_call_def evolves_def wf_def nth_append
         pty_listener_ok_def split: option.splits)

lemma evolves_caught:
  assumes "evolves s s'"
  shows "evolves s (sendError w (emit_call (ConsoleLog err) (emit_call (Log l) s')) err)"
  by (rule evolves_trans [OF assms
        evolves_trans [OF evolves_emit_call evolves_trans [OF evolves_emit_call evolves_sendError]]])

lemma evolves_runCode_caught: "evolves s (snd r) \<Longrightarrow> evolves s (runCode_caught w r)"
proof -
  assume e: "evolves s (snd r)"
  obtain x s' where r: "r = (x, s')" by (cases r)
  with e have e': "evolves s s'" by simp
  show ?thesis
    using e' evolves_caught [OF e', of w _ RunCodeError]
    by (cases x) (simp_all add: runCode_caught_def r)
qed

lemma evolves_begin_try [simp]: "evolves s (snd (runCode_begin_try w s code))"
  unfolding runCode_begin_try_def Let_def
proof (rule evolves_and_then)
  show "evolves s (snd (runCode_kill w s))" by simp
next
  fix s1
  show "evolves s1
          (snd (if needs_mkdir (send w s1 TerminalClear)
                then await_mkdir w (send w s1 TerminalClear) (deployed_code (config s) code)
                       (cmdline_of (config s) code)
                else await_write w (send w s1 TerminalClear) (deployed_code (config s) code)
                       (cmdline_of (config s) code)))"
    using evolves_trans [OF evolves_send evolves_await_mkdir]
          evolves_trans [OF evolves_send evolves_await_write]
    by simp
qed

lemma evolves_begin [simp]: "evolves s (runCode_begin w s code)"
  unfolding runCode_begin_def by (rule evolves_runCode_caught) simp

lemma evolves_resume_try [simp]: "evolves s (snd (resume_try w s t))"
  by (cases "(w, s, t)" rule: resume_try.cases) simp_all

lemma evolves_resume [simp]: "evolves s (resume w s k)"
proof (cases "k < length (waiting s)")
  case False
  then show ?thesis by (simp add: resume_def)
next
  case True
  let ?s0 = "s\<lparr>waiting := take k (waiting s) @ drop (Suc k) (waiting s)\<rparr>"
  have a: "evolves s ?s0" by (rule evolves_same) simp_all
  have "evolves s (snd (resume_try w ?s0 (waiting s ! k)))"
    by (rule evolves_trans [OF a evolves_resume_try])
  from evolves_runCode_caught [OF this] True show ?thesis by (simp add: resume_def)
qed

lemma evolves_runCode [simp]: "evolves s (runCode w s code)"
  unfolding runCode_def Let_def
  by (rule evolves_trans [OF evolves_begin
        evolves_trans [OF evolves_resume evolves_trans [OF evolves_resume evolves_resume]]])

lemma evolves_logBad [simp]: "evolves s (snd (logBadMessage s m))"
  by (simp add: logBadMessage_def)

lemma evolves_switch [simp]: "evolves s (snd (receive_switch w s m))"
  by (simp add: receive_switch_def split: option.splits json.splits)

lemma evolves_receive [simp]: "evolves s (receive w s ev)"
proof (cases "json_parse w ev")
  case None
  then show ?thesis by (simp add: receive_def)
next
  case (Some m)
  obtain r s' where sw: "receive_switch w s m = (r, s')" by (cases "receive_switch w s m")
  with evolves_switch [of s w m] have e: "evolves s s'" by simp
  show ?thesis
    using e evolves_caught [OF e, of w _ HandlingError]
    by (cases r) (simp_all add: receive_def Some sw)
qed

lemma evolves_invoke [simp]: "evolves s (invoke w s l a)"
  by (cases "(w, s, l, a)" rule: invoke.cases)
     (simp_all add: evolves_trans [OF evolves_emit_call evolves_teardown_begin])

lemma evolves_foldl_invoke: "evolves s (foldl (\<lambda>s' l. invoke w s' l a) s ls)"
proof (induction ls arbitrary: s)
  case Nil
  show ?case by simp
next
  case (Cons l ls)
  show ?case using evolves_trans [OF evolves_invoke Cons.IH] by simp
qed

lemma evolves_step [simp]: "evolves s (step w s ev)"
  by (cases ev) (simp_all add: fire_def evolves_foldl_invoke)

lemma evolves_run_events: "evolves s (run_events w s evs)"
  unfolding run_events_def
proof (induction evs arbitrary: s)
  case Nil
  show ?case by simp
next
  case (Cons e evs)
  show ?case using evolves_trans [OF evolves_step Cons.IH] by simp
qed

lemma evolves_lease [simp]: "evolves s (snd (setup_lease w s))"
  by (auto simp: setup_lease_def and_then_def call_def emit_call_def evolves_def wf_def
           split: option.splits)

lemma evolves_privileged [simp]: "evolves s (snd (setup_privileged w s))"
  by (simp add: setup_privileged_def split: sum.splits)

lemma evolves_daemon [simp]: "evolves s (snd (setup_daemon w s))"
proof (cases "truthy (daemon (config s))")
  case False
  then show ?thesis by (simp add: setup_daemon_def)
next
  case True
  show ?thesis
    unfolding setup_daemon_def if_P [OF True]
    by (rule evolves_with_spawn)
       (auto simp: evolves_def wf_def emit_call_def daemon_round_def pty_listener_ok_def
             split: option.splits)
qed

lemma evolves_lsp_start [simp]: "evolves s (snd (setup_lsp_start w s))"
  unfolding setup_lsp_start_def
proof (rule evolves_with_spawn)
  fix c
  let ?s1 = "(emit_call (Spawn c) s)
              \<lparr>lsp_h := True,
               listeners := listeners s
                  @ [(LspReader, ''message'', OnLspMessage), (LspStderr, ''data'', OnLspData),
                     (LspProc, ''exit'', OnLspExit), (LspProc, ''error'', OnLspError)]\<rparr>"
  have "evolves s ?s1"
    by (auto simp: evolves_def wf_def emit_call_def pty_listener_ok_def split: option.splits)
  from evolves_trans [OF this evolves_send]
  show "evolves s (snd (None, send w ?s1 (LspStarted (homedir s))))" by simp
qed

lemma evolves_lsp_setup:
  "evolves s (snd (if truthy (lspSetup (config s))
                   then with_spawn s (Bash (the (lspSetup (config s)))) (\<lambda>c. call w (Run c None) s)
                   else (None, s)))"
  by (simp add: evolves_with_spawn)

lemma evolves_lsp [simp]: "evolves s (snd (setup_lsp w s))"
proof (cases "truthy (lsp (config s))")
  case False
  then show ?thesis by (simp add: setup_lsp_def)
next
  case True
  show ?thesis
    unfolding setup_lsp_def if_P [OF True]
    by (rule evolves_and_then [OF evolves_lsp_setup]) simp
qed

lemma evolves_subscribe [simp]: "evolves s (setup_subscribe s)"
  by (auto simp: evolves_def wf_def setup_subscribe_def pty_listener_ok_def split: option.splits)

lemma evolves_setup_try [simp]: "evolves s (snd (setup_try w s))"
  unfolding setup_try_def
  by (intro evolves_and_then)
     (simp_all add: evolves_trans [OF evolves_runCode evolves_daemon])

lemma evolves_setup_catch [simp]: "evolves s (setup_catch w s err)"
  unfolding setup_catch_def Let_def sendError_first_def sendError_rest_def
  by (rule evolves_trans [OF evolves_emit_call evolves_trans [OF evolves_emit_call
        evolves_trans [OF evolves_send evolves_trans [OF evolves_teardown_begin evolves_send]]]])

lemma evolves_setup [simp]: "evolves s (session_setup w s)"
proof (cases "setup_try w s")
  case (Pair r s')
  with evolves_setup_try [of s w] have e: "evolves s s'" by simp
  show ?thesis
    using e evolves_trans [OF e evolves_setup_catch]
    by (cases r) (simp_all add: session_setup_def Pair)
qed

lemma wf_new_session [simp]: "wf (new_session u cfg)"
  by (simp add: wf_def new_session_def)

lemma wf_create [simp]: "wf (create w u cfg)"
  using evolves_setup [of "new_session u cfg" w] by (simp add: evolves_def create_def)

lemma wf_run_events: "wf s \<Longrightarrow> wf (run_events w s evs)"
  using evolves_run_events [of s w evs] by (simp add: evolves_def)

subsection \<open>No handler but the timer releases anything\<close>

lemma quiet_refl [simp]: "quiet s s"
  by (simp add: quiet_def)

lemma quiet_trans: "quiet a b \<Longrightarrow> quiet b c \<Longrightarrow> quiet a c"
  unfolding quiet_def by (auto split: if_splits)

lemma quiet_same:
  "uidInfo s' = uidInfo s \<Longrightarrow> uuid s' = uuid s \<Longrightarrow> config s' = config s
   \<Longrightarrow> tearingDown s' = tearingDown s
   \<Longrightarrow> grace_pending s' = grace_pending s \<Longrightarrow> releases s' = releases s
   \<Longrightarrow> timers s' = timers s \<Longrightarrow> quiet s s'"
  by (simp add: quiet_def)

lemma quiet_emit_call:
  "\<not> is_release e \<Longrightarrow> \<not> is_timer e \<Longrightarrow> quiet s (emit_call e s)"
  by (rule quiet_same) (simp_all add: emit_call_def releases_def timers_def)

lemma quiet_call:
  "\<not> is_release e \<Longrightarrow> \<not> is_timer e \<Longrightarrow> quiet s (snd (call w e s))"
  by (simp add: call_def quiet_emit_call)

lemma quiet_and_then:
  "quiet s (snd r) \<Longrightarrow> (\<And>s1. quiet s1 (snd (f s1))) \<Longrightarrow> quiet s (snd (and_then r f))"
  by (cases r) (auto simp: and_then_def split: option.splits intro: quiet_trans)

lemma quiet_with_spawn:
  "(\<And>ctx. quiet s (snd (f (PrivilegedSpawn ctx a)))) \<Longrightarrow> quiet s (snd (with_spawn s a f))"
  by (auto simp: with_spawn_def split: sum.splits)

lemma quiet_teardown_begin [simp]: "quiet s (teardown_begin s)"
  by (simp add: quiet_def teardown_begin_def emit_call_def releases_def timers_def is_release_def)

lemma quiet_send [simp]: "quiet s (send w s m)"
proof (cases "tearingDown s")
  case True
  then show ?thesis by simp
next
  case False
  obtain r s' where c: "call w (WsSend m) s = (r, s')" by (cases "call w (WsSend m) s")
  with quiet_call [of "WsSend m" s w] have q: "quiet s s'" by (simp add: is_release_def)
  have "quiet s' (teardown_begin (emit_call (Log (SendFailed err)) s'))" for err
    by (rule quiet_trans [OF quiet_emit_call quiet_teardown_begin]) (simp_all add: is_release_def)
  with q show ?thesis
    using False by (cases r) (auto simp: send_def c intro: quiet_trans)
qed

lemma quiet_sendError [simp]: "quiet s (sendError w s err)"
  unfolding sendError_def sendError_first_def sendError_rest_def
  by (rule quiet_trans [OF quiet_send quiet_send])

lemma quiet_caught:
  assumes "quiet s s'"
  shows "quiet s (sendError w (emit_call (ConsoleLog err) (emit_call (Log l) s')) err)"
proof -
  have a: "quiet s' (emit_call (Log l) s')" by (simp add: quiet_emit_call is_release_def)
  have b: "quiet (emit_call (Log l) s') (emit_call (ConsoleLog err) (emit_call (Log l) s'))"
    by (simp add: quiet_emit_call is_release_def)
  show ?thesis
    by (rule quiet_trans [OF assms quiet_trans [OF a quiet_trans [OF b quiet_sendError]]])
qed

lemma quiet_runCode_caught: "quiet s (snd r) \<Longrightarrow> quiet s (runCode_caught w r)"
proof -
  assume e: "quiet s (snd r)"
  obtain x s' where r: "r = (x, s')" by (cases r)
  with e have e': "quiet s s'" by simp
  show ?thesis
    using e' quiet_caught [OF e', of w _ RunCodeError]
    by (cases x) (simp_all add: runCode_caught_def r)
qed

lemma quiet_kill [simp]: "quiet s (snd (runCode_kill w s))"
proof (cases "term_h s")
  case None
  then show ?thesis by (simp add: runCode_kill_def)
next
  case (Some h)
  show ?thesis
    unfolding runCode_kill_def Some option.case
    by (rule quiet_with_spawn, simp, rule quiet_same)
       (simp_all add: emit_call_def releases_def timers_def is_release_def)
qed

lemma quiet_suspend [simp]: "quiet s (snd (suspend w s a i k))"
  unfolding suspend_def
  by (rule quiet_with_spawn, simp, rule quiet_same)
     (simp_all add: emit_call_def releases_def timers_def is_release_def)

lemma quiet_await_mkdir [simp]: "quiet s (snd (await_mkdir w s c cl))"
  by (simp add: await_mkdir_def)

lemma quiet_await_write [simp]: "quiet s (snd (await_write w s c cl))"
  by (simp add: await_write_def)

lemma quiet_await_hack [simp]: "quiet s (snd (await_hack w s c cl))"
  by (simp add: await_hack_def)

lemma quiet_spawn [simp]: "quiet s (snd (runCode_spawn w s c))"
  unfolding runCode_spawn_def Let_def
proof (rule quiet_with_spawn, rule quiet_and_then)
  fix c' show "quiet s (snd (call w (PtySpawn (length (term_live s)) c') s))"
    by (simp add: quiet_call is_release_def)
next
  fix c' s1
  show "quiet s1 (snd (None, s1\<lparr>term_live := term_live s1 @ [True],
                 term_h := Some (length (term_live s)),
                 listeners := listeners s1 @ [(Pty (length (term_live s)), ''data'',
                                              OnPtyData (length (term_live s)))]\<rparr>))"
    by (simp, rule quiet_same) (simp_all add: releases_def timers_def)
qed

lemma quiet_begin_try [simp]: "quiet s (snd (runCode_begin_try w s code))"
  unfolding runCode_begin_try_def Let_def
proof (rule quiet_and_then)
  show "quiet s (snd (runCode_kill w s))" by simp
next
  fix s1
  show "quiet s1
          (snd (if needs_mkdir (send w s1 TerminalClear)
                then await_mkdir w (send w s1 TerminalClear) (deployed_code (config s) code)
                       (cmdline_of (config s) code)
                else await_write w (send w s1 TerminalClear) (deployed_code (config s) code)
                       (cmdline_of (config s) code)))"
    using quiet_trans [OF quiet_send quiet_await_mkdir]
          quiet_trans [OF quiet_send quiet_await_write]
    by simp
qed

lemma quiet_begin [simp]: "quiet s (runCode_begin w s code)"
  unfolding runCode_begin_def by (rule quiet_runCode_caught) simp

lemma quiet_resume_try [simp]: "quiet s (snd (resume_try w s t))"
  by (cases "(w, s, t)" rule: resume_try.cases) simp_all

lemma quiet_resume [simp]: "quiet s (resume w s k)"
proof (cases "k < length (waiting s)")
  case False
  then show ?thesis by (simp add: resume_def)
next
  case True
  let ?s0 = "s\<lparr>waiting := take k (waiting s) @ drop (Suc k) (waiting s)\<rparr>"
  have a: "quiet s ?s0" by (rule quiet_same) (simp_all add: releases_def timers_def)
  have "quiet s (snd (resume_try w ?s0 (waiting s ! k)))"
    by (rule quiet_trans [OF a quiet_resume_try])
  from quiet_runCode_caught [OF this] True show ?thesis by (simp add: resume_def)
qed

lemma quiet_runCode [simp]: "quiet s (runCode w s code)"
  unfolding runCode_def Let_def
  by (rule quiet_trans [OF quiet_begin
        quiet_trans [OF quiet_resume quiet_trans [OF quiet_resume quiet_resume]]])

lemma quiet_logBad [simp]: "quiet s (snd (logBadMessage s m))"
  by (simp add: logBadMessage_def quiet_emit_call is_release_def)

lemma quiet_switch [simp]: "quiet s (snd (receive_switch w s m))"
  by (simp add: receive_switch_def quiet_emit_call quiet_call is_release_def
           split: option.splits json.splits)

lemma quiet_receive [simp]: "quiet s (receive w s ev)"
proof (cases "json_parse w ev")
  case None
  then show ?thesis by (simp add: receive_def quiet_emit_call is_release_def)
next
  case (Some m)
  obtain r s' where sw: "receive_switch w s m = (r, s')" by (cases "receive_switch w s m")
  with quiet_switch [of s w m] have e: "quiet s s'" by simp
  show ?thesis
    using e quiet_caught [OF e, of w _ HandlingError]
    by (cases r) (simp_all add: receive_def Some sw)
qed

lemma quiet_ws_error: "quiet s (teardown_begin (emit_call (Log (WebsocketError e)) s))"
  by (rule quiet_trans [OF quiet_emit_call quiet_teardown_begin]) (simp_all add: is_release_def)

lemma quiet_invoke [simp]: "quiet s (invoke w s l a)"
  by (cases "(w, s, l, a)" rule: invoke.cases) (simp_all add: quiet_ws_error)

lemma quiet_foldl_invoke: "quiet s (foldl (\<lambda>s' l. invoke w s' l a) s ls)"
proof (induction ls arbitrary: s)
  case Nil
  show ?case by simp
next
  case (Cons l ls)
  show ?case using quiet_trans [OF quiet_invoke Cons.IH] by simp
qed

lemma quiet_fire [simp]: "quiet s (fire w s em n a)"
  by (simp add: fire_def quiet_foldl_invoke)

lemma quiet_privileged [simp]: "quiet s (snd (setup_privileged w s))"
  by (simp add: setup_privileged_def quiet_call is_release_def split: sum.splits)

lemma quiet_daemon [simp]: "quiet s (snd (setup_daemon w s))"
proof (cases "truthy (daemon (config s))")
  case False
  then show ?thesis by (simp add: setup_daemon_def)
next
  case True
  show ?thesis
    unfolding setup_daemon_def if_P [OF True]
    by (rule quiet_with_spawn, simp, rule quiet_same)
       (simp_all add: emit_call_def releases_def timers_def is_release_def)
qed

lemma quiet_lsp_start [simp]: "quiet s (snd (setup_lsp_start w s))"
  unfolding setup_lsp_start_def
proof (rule quiet_with_spawn)
  fix c
  let ?s1 = "(emit_call (Spawn c) s)
              \<lparr>lsp_h := True,
               listeners := listeners s
                  @ [(LspReader, ''message'', OnLspMessage), (LspStderr, ''data'', OnLspData),
                     (LspProc, ''exit'', OnLspExit), (LspProc, ''error'', OnLspError)]\<rparr>"
  have "quiet s ?s1"
    by (rule quiet_same) (simp_all add: emit_call_def releases_def timers_def is_release_def)
  from quiet_trans [OF this quiet_send]
  show "quiet s (snd (None, send w ?s1 (LspStarted (homedir s))))" by simp
qed

lemma quiet_run_spawned [simp]:
  "quiet s (snd (call w (Run (PrivilegedSpawn ctx a) i) s))"
  by (simp add: quiet_call is_release_def)

lemma quiet_lsp_setup:
  "quiet s (snd (if truthy (lspSetup (config s))
                 then with_spawn s (Bash (the (lspSetup (config s)))) (\<lambda>c. call w (Run c None) s)
                 else (None, s)))"
  by (simp add: quiet_with_spawn)

lemma quiet_lsp [simp]: "quiet s (snd (setup_lsp w s))"
proof (cases "truthy (lsp (config s))")
  case False
  then show ?thesis by (simp add: setup_lsp_def)
next
  case True
  show ?thesis
    unfolding setup_lsp_def if_P [OF True]
    by (rule quiet_and_then [OF quiet_lsp_setup]) simp
qed

lemma quiet_subscribe [simp]: "quiet s (setup_subscribe s)"
  by (rule quiet_same) (simp_all add: setup_subscribe_def releases_def timers_def)

lemma quiet_setup_catch [simp]: "quiet s (setup_catch w s err)"
proof -
  have a: "quiet s (emit_call (Log SetupError) s)" by (simp add: quiet_emit_call is_release_def)
  have b: "quiet (emit_call (Log SetupError) s) (emit_call (ConsoleLog err) (emit_call (Log SetupError) s))"
    by (simp add: quiet_emit_call is_release_def)
  show ?thesis
    unfolding setup_catch_def Let_def sendError_first_def sendError_rest_def
    by (rule quiet_trans [OF a quiet_trans [OF b
          quiet_trans [OF quiet_send quiet_trans [OF quiet_teardown_begin quiet_send]]]])
qed

lemma quiet_after_lease:
  "quiet s1 (snd (and_then (setup_privileged w s1) (\<lambda>s2.
             and_then (setup_daemon w (runCode w s2 None)) (\<lambda>s3.
             and_then (setup_lsp w s3) (\<lambda>s4. (None, setup_subscribe s4))))))"
  by (intro quiet_and_then) (simp_all add: quiet_trans [OF quiet_runCode quiet_daemon])

subsection \<open>The release sequence runs at most once\<close>

lemma release_seq_same:
  "uidInfo s' = uidInfo s \<Longrightarrow> uuid s' = uuid s \<Longrightarrow> release_seq s' = release_seq s"
  by (auto simp: release_seq_def split: option.splits)

lemma release_seq_quiet: "quiet s s' \<Longrightarrow> release_seq s' = release_seq s"
  by (rule release_seq_same) (simp_all add: quiet_def)

lemma td_inv_quiet: "quiet s s' \<Longrightarrow> td_inv s \<Longrightarrow> td_inv s'"
  using release_seq_quiet [of s s']
  by (auto simp: quiet_def td_inv_def split: if_splits)

lemma release_reached_quiet: "quiet s s' \<Longrightarrow> release_reached n s \<Longrightarrow> release_reached n s'"
  by (auto simp: quiet_def release_reached_def split: if_splits)

lemma release_shape:
  "\<exists>n. snd (teardown_release w s) = s\<lparr>trace := trace s @ take n (release_seq s)\<rparr>
       \<and> (uidInfo s \<noteq> None \<longrightarrow>
            ((\<forall>tr e. is_cleanup e \<longrightarrow> throws w tr e = None) \<longrightarrow> 2 \<le> n)
            \<and> ((\<forall>tr e. is_release e \<longrightarrow> throws w tr e = None) \<longrightarrow> 3 \<le> n))"
proof (cases "uidInfo s")
  case None
  then have "snd (teardown_release w s) = s\<lparr>trace := trace s @ take 0 (release_seq s)\<rparr>"
    by (simp add: teardown_release_def get_context_def)
  with None show ?thesis by blast
next
  case (Some u)
  let ?R = "Run (PrivilegedTeardown (Context u (uuid s))) None"
  let ?s1 = "emit_call ?R s"
  have seq: "release_seq s = [?R, ReturnUID u, WsTerminate]" by (simp add: release_seq_def Some)
  have cl: "is_cleanup ?R" "is_release ?R" "is_release (ReturnUID u)"
    by (simp_all add: is_release_def)
  show ?thesis
  proof (cases "throws w (trace s) ?R")
    case (Some e)
    then have "snd (teardown_release w s) = s\<lparr>trace := trace s @ take 1 (release_seq s)\<rparr>"
      by (simp add: teardown_release_def get_context_def \<open>uidInfo s = Some u\<close> and_then_def
            call_def emit_call_def seq)
    moreover have "\<not> (\<forall>tr e. is_cleanup e \<longrightarrow> throws w tr e = None)"
      using Some cl(1) by force
    moreover have "\<not> (\<forall>tr e. is_release e \<longrightarrow> throws w tr e = None)"
      using Some cl(2) by force
    ultimately show ?thesis by blast
  next
    case None
    note r = None
    show ?thesis
    proof (cases "throws w (trace ?s1) (ReturnUID u)")
      case (Some e)
      then have "snd (teardown_release w s) = s\<lparr>trace := trace s @ take 2 (release_seq s)\<rparr>"
        using r
        by (simp add: teardown_release_def get_context_def \<open>uidInfo s = Some u\<close> and_then_def
              call_def emit_call_def seq)
      moreover have "\<not> (\<forall>tr e. is_release e \<longrightarrow> throws w tr e = None)"
        using Some cl(3) by force
      ultimately show ?thesis by (intro exI [of _ 2]) simp
    next
      case None
      then have "snd (teardown_release w s) = s\<lparr>trace := trace s @ take 3 (release_seq s)\<rparr>"
        using r
        by (simp add: teardown_release_def get_context_def \<open>uidInfo s = Some u\<close> and_then_def
              call_def emit_call_def seq)
      then show ?thesis by (intro exI [of _ 3]) simp
    qed
  qed
qed

lemma release_seq_all: "filter is_release (take n (release_seq s)) = take n (release_seq s)"
  by (cases n; cases "uidInfo s")
     (auto simp: release_seq_def is_release_def take_Cons' )

lemma release_seq_no_timer: "filter is_timer (take n (release_seq s)) = []"
  by (cases "uidInfo s") (auto simp: release_seq_def take_Cons')

lemma finish_shape:
  assumes "grace_pending s"
  shows "\<exists>n. releases (teardown_finish w s) = releases s @ take n (release_seq s)
           \<and> (uidInfo s \<noteq> None \<longrightarrow>
                ((\<forall>tr e. is_cleanup e \<longrightarrow> throws w tr e = None) \<longrightarrow> 2 \<le> n)
                \<and> ((\<forall>tr e. is_release e \<longrightarrow> throws w tr e = None) \<longrightarrow> 3 \<le> n))
           \<and> timers (teardown_finish w s) = timers s
           \<and> tearingDown (teardown_finish w s) = tearingDown s
           \<and> \<not> grace_pending (teardown_finish w s)
           \<and> uidInfo (teardown_finish w s) = uidInfo s
           \<and> uuid (teardown_finish w s) = uuid s"
proof -
  let ?s0 = "s\<lparr>grace_pending := False\<rparr>"
  from release_shape [of w ?s0] obtain n where
    sh: "snd (teardown_release w ?s0) = ?s0\<lparr>trace := trace ?s0 @ take n (release_seq ?s0)\<rparr>"
    and full: "uidInfo ?s0 \<noteq> None \<longrightarrow>
                ((\<forall>tr e. is_cleanup e \<longrightarrow> throws w tr e = None) \<longrightarrow> 2 \<le> n)
                \<and> ((\<forall>tr e. is_release e \<longrightarrow> throws w tr e = None) \<longrightarrow> 3 \<le> n)"
    by blast
  have rs: "release_seq ?s0 = release_seq s" by (rule release_seq_same) simp_all
  obtain r s' where p: "teardown_release w ?s0 = (r, s')" by (cases "teardown_release w ?s0")
  with sh rs have s': "s' = ?s0\<lparr>trace := trace s @ take n (release_seq s)\<rparr>" by simp
  have "releases (teardown_finish w s) = releases s @ take n (release_seq s)
        \<and> timers (teardown_finish w s) = timers s
        \<and> tearingDown (teardown_finish w s) = tearingDown s
        \<and> \<not> grace_pending (teardown_finish w s)
        \<and> uidInfo (teardown_finish w s) = uidInfo s
        \<and> uuid (teardown_finish w s) = uuid s"
    by (cases r)
       (simp_all add: teardown_finish_def p s' releases_def timers_def emit_call_def
          release_seq_all release_seq_no_timer is_release_def)
  with full show ?thesis by (intro exI [of _ n]) simp
qed

lemma td_inv_grace: "td_inv s \<Longrightarrow> td_inv (grace_elapsed w s)"
proof (cases "grace_pending s")
  case False
  assume "td_inv s"
  with False show ?thesis by (simp add: grace_elapsed_def)
next
  case True
  assume i: "td_inv s"
  from finish_shape [OF True, of w] obtain n where
    f: "releases (teardown_finish w s) = releases s @ take n (release_seq s)"
       "timers (teardown_finish w s) = timers s"
       "tearingDown (teardown_finish w s) = tearingDown s"
       "\<not> grace_pending (teardown_finish w s)"
       "uidInfo (teardown_finish w s) = uidInfo s"
       "uuid (teardown_finish w s) = uuid s"
    by blast
  from f(5,6) have rs: "release_seq (teardown_finish w s) = release_seq s"
    by (rule release_seq_same)
  from i True have td: "tearingDown s" and r0: "releases s = []" and t: "timers s = [SetTimeout 5000]"
    by (auto simp: td_inv_def split: if_splits)
  show ?thesis
    using f rs td r0 t True by (simp add: grace_elapsed_def td_inv_def min_def)
qed

text \<open>
  When the cleanup command does not throw (\<open>k = 2\<close>), or no call of the release
  sequence does (\<open>k = 3\<close>), the timer of teardown runs the first \<open>k\<close> calls of the
  sequence.
\<close>

lemma release_reached_grace:
  assumes "k = 2 \<and> (\<forall>tr e. is_cleanup e \<longrightarrow> throws w tr e = None)
           \<or> k = 3 \<and> (\<forall>tr e. is_release e \<longrightarrow> throws w tr e = None)"
    and "td_inv s" and "release_reached k s"
  shows "release_reached k (grace_elapsed w s)"
proof (cases "grace_pending s")
  case False
  with assms show ?thesis by (simp add: grace_elapsed_def)
next
  case True
  from finish_shape [OF True, of w] obtain n where
    f: "releases (teardown_finish w s) = releases s @ take n (release_seq s)"
       "uidInfo s \<noteq> None \<longrightarrow>
                ((\<forall>tr e. is_cleanup e \<longrightarrow> throws w tr e = None) \<longrightarrow> 2 \<le> n)
                \<and> ((\<forall>tr e. is_release e \<longrightarrow> throws w tr e = None) \<longrightarrow> 3 \<le> n)"
       "uidInfo (teardown_finish w s) = uidInfo s"
    by blast
  have "k \<le> length (releases (teardown_finish w s))" if u: "uidInfo s \<noteq> None"
  proof -
    from assms(1) f(2) u have kn: "k \<le> n" and k3: "k \<le> 3" by auto
    from u have "length (release_seq s) = 3" by (auto simp: release_seq_def)
    with kn k3 show ?thesis by (simp add: f(1))
  qed
  with f(3) True show ?thesis by (simp add: grace_elapsed_def release_reached_def)
qed

lemma td_inv_step: "td_inv s \<Longrightarrow> td_inv (step w s ev)"
  by (cases ev)
     (simp_all add: td_inv_grace td_inv_quiet [OF quiet_fire] td_inv_quiet [OF quiet_resume])

lemma td_inv_run_events: "td_inv s \<Longrightarrow> td_inv (run_events w s evs)"
  unfolding run_events_def by (induction evs arbitrary: s) (simp_all add: td_inv_step)

lemma release_reached_step:
  assumes "k = 2 \<and> (\<forall>tr e. is_cleanup e \<longrightarrow> throws w tr e = None)
           \<or> k = 3 \<and> (\<forall>tr e. is_release e \<longrightarrow> throws w tr e = None)"
    and "td_inv s" and "release_reached k s"
  shows "release_reached k (step w s ev)"
proof (cases ev)
  case (Fire em n a)
  with release_reached_quiet [OF quiet_fire assms(3)] show ?thesis by simp
next
  case GraceElapsed
  with release_reached_grace [OF assms] show ?thesis by simp
next
  case (Resume j)
  with release_reached_quiet [OF quiet_resume assms(3)] show ?thesis by simp
qed

lemma release_reached_run_events:
  assumes "k = 2 \<and> (\<forall>tr e. is_cleanup e \<longrightarrow> throws w tr e = None)
           \<or> k = 3 \<and> (\<forall>tr e. is_release e \<longrightarrow> throws w tr e = None)"
  shows "td_inv s \<Longrightarrow> release_reached k s \<Longrightarrow> release_reached k (run_events w s evs)"
  unfolding run_events_def
  by (induction evs arbitrary: s) (simp_all add: td_inv_step release_reached_step [OF assms])

lemma lease_idle:
  assumes "\<not> tearingDown s" and "td_inv s"
  shows "\<not> tearingDown (snd (setup_lease w s)) \<and> td_inv (snd (setup_lease w s))
         \<and> uuid (snd (setup_lease w s)) = uuid s \<and> config (snd (setup_lease w s)) = config s"
  using assms
  by (auto simp: setup_lease_def and_then_def call_def emit_call_def td_inv_def releases_def
        timers_def is_release_def split: option.splits)

lemma setup_try_idle:
  assumes "\<not> tearingDown s" and "td_inv s"
  shows "td_inv (snd (setup_try w s)) \<and> release_reached k (snd (setup_try w s))
         \<and> uuid (snd (setup_try w s)) = uuid s \<and> config (snd (setup_try w s)) = config s"
proof -
  obtain r s1 where l: "setup_lease w s = (r, s1)" by (cases "setup_lease w s")
  with lease_idle [OF assms, of w]
  have i: "\<not> tearingDown s1" "td_inv s1" "uuid s1 = uuid s" "config s1 = config s" by simp_all
  then have c: "release_reached k s1" by (simp add: release_reached_def)
  show ?thesis
  proof (cases r)
    case (Some err)
    with l i c show ?thesis by (simp add: setup_try_def and_then_def)
  next
    case None
    let ?rest = "and_then (setup_privileged w s1) (\<lambda>s2.
             and_then (setup_daemon w (runCode w s2 None)) (\<lambda>s3.
             and_then (setup_lsp w s3) (\<lambda>s4. (None, setup_subscribe s4))))"
    from None l have e: "setup_try w s = ?rest" by (simp add: setup_try_def and_then_def)
    have q: "quiet s1 (snd ?rest)" by (rule quiet_after_lease)
    from td_inv_quiet [OF q i(2)] release_reached_quiet [OF q c] q i(3,4)
    show ?thesis by (simp add: e quiet_def)
  qed
qed

lemma setup_idle:
  assumes "\<not> tearingDown s" and "td_inv s"
  shows "td_inv (session_setup w s) \<and> release_reached k (session_setup w s)
         \<and> uuid (session_setup w s) = uuid s \<and> config (session_setup w s) = config s"
proof -
  obtain r s' where t: "setup_try w s = (r, s')" by (cases "setup_try w s")
  with setup_try_idle [OF assms, where k=k and w=w]
  have i: "td_inv s'" "release_reached k s'" "uuid s' = uuid s" "config s' = config s"
    by simp_all
  show ?thesis
  proof (cases r)
    case None
    with t i show ?thesis by (simp add: session_setup_def)
  next
    case (Some err)
    have q: "quiet s' (setup_catch w s' err)" by simp
    from td_inv_quiet [OF q i(1)] release_reached_quiet [OF q i(2)] q i(3,4) t Some
    show ?thesis by (simp add: session_setup_def quiet_def)
  qed
qed

lemma create_idle:
  "td_inv (create w u cfg) \<and> release_reached k (create w u cfg) \<and> uuid (create w u cfg) = u
   \<and> config (create w u cfg) = cfg"
proof -
  have "\<not> tearingDown (new_session u cfg)" "td_inv (new_session u cfg)"
    by (simp_all add: new_session_def td_inv_def releases_def timers_def is_release_def)
  from setup_idle [OF this, where k=k and w=w] show ?thesis by (simp add: create_def new_session_def)
qed

lemma kept_step:
  "uuid (step w s ev) = uuid s \<and> uidInfo (step w s ev) = uidInfo s"
proof (cases ev)
  case (Fire em n a)
  with quiet_fire [of s w em n a] show ?thesis by (simp add: quiet_def)
next
  case GraceElapsed
  show ?thesis
  proof (cases "grace_pending s")
    case True
    from finish_shape [OF True, of w] GraceElapsed True show ?thesis
      by (auto simp: grace_elapsed_def)
  next
    case False
    with GraceElapsed show ?thesis by (simp add: grace_elapsed_def)
  qed
next
  case (Resume j)
  with quiet_resume [of s w j] show ?thesis by (simp add: quiet_def)
qed

lemma uuid_run_events: "uuid (run_events w s evs) = uuid s"
  unfolding run_events_def by (induction evs arbitrary: s) (simp_all add: kept_step)

lemma uid_run_events: "uidInfo (run_events w s evs) = uidInfo s"
  unfolding run_events_def by (induction evs arbitrary: s) (simp_all add: kept_step)

lemma count_in_releases:
  assumes "\<And>e. p e \<Longrightarrow> is_release e"
  shows "filter p (releases s) = filter p (trace s)"
proof -
  have "filter p (filter is_release xs) = filter p xs" for xs
    by (induction xs) (auto simp: assms)
  then show ?thesis by (simp add: releases_def)
qed

lemma filter_take_le: "length (filter p (take n xs)) \<le> length (filter p xs)"
proof -
  have "filter p xs = filter p (take n xs) @ filter p (drop n xs)"
    by (metis append_take_drop_id filter_append)
  then show ?thesis by simp
qed

lemma td_inv_prefix: "td_inv s \<Longrightarrow> \<exists>n. releases s = take n (release_seq s)"
  by (auto simp: td_inv_def split: if_splits intro: exI [of _ 0]) metis

lemma td_inv_counts:
  assumes "td_inv s"
  shows "count_calls is_timer s \<le> 1 \<and> count_calls is_cleanup s \<le> 1
         \<and> count_calls is_return s \<le> 1 \<and> count_calls is_terminate s \<le> 1"
proof -
  have t: "count_calls is_timer s \<le> 1"
    using assms by (auto simp: td_inv_def count_calls_def timers_def split: if_splits)
  from td_inv_prefix [OF assms] obtain n where n: "releases s = take n (release_seq s)" by blast
  have c: "length (filter p (releases s)) \<le> length (filter p (release_seq s))" for p
    unfolding n by (rule filter_take_le)
  have "length (filter is_cleanup (release_seq s)) \<le> 1"
       "length (filter is_return (release_seq s)) \<le> 1"
       "length (filter is_terminate (release_seq s)) \<le> 1"
    by (simp_all add: release_seq_def split: option.splits)
  with c [of is_cleanup] c [of is_return] c [of is_terminate]
  have "length (filter is_cleanup (releases s)) \<le> 1"
       "length (filter is_return (releases s)) \<le> 1"
       "length (filter is_terminate (releases s)) \<le> 1"
    by linarith+
  with t show ?thesis
    by (simp add: count_calls_def count_in_releases [of is_cleanup, symmetric]
          count_in_releases [of is_return, symmetric]
          count_in_releases [of is_terminate, symmetric] is_release_def)
qed

text \<open>
  In a session that holds a uid, once at least two calls of the release sequence
  have been made the uid has been returned exactly once.
\<close>

lemma returned_once:
  assumes "td_inv s" and "uidInfo s = Some uid" and "2 \<le> length (releases s)"
  shows "filter is_return (trace s) = [ReturnUID uid]"
proof -
  from td_inv_prefix [OF assms(1)] obtain n where n: "releases s = take n (release_seq s)"
    by blast
  have seq: "release_seq s
             = [Run (PrivilegedTeardown (Context uid (uuid s))) None, ReturnUID uid, WsTerminate]"
    by (simp add: release_seq_def assms(2))
  from assms(3) n seq have "2 \<le> n" by simp
  then consider "n = 2" | "3 \<le> n" by linarith
  then have "filter is_return (releases s) = [ReturnUID uid]"
    by cases (simp_all add: n seq take_Cons' numeral_2_eq_2 numeral_3_eq_3)
  then show ?thesis by (simp add: count_in_releases [of is_return, symmetric] is_release_def)
qed

lemma teardown_twice: "teardown w (teardown w s) = teardown w s"
proof -
  have a: "tearingDown (teardown w s)"
  proof (cases "grace_pending (teardown_begin s)")
    case True
    from finish_shape [OF True, of w] True show ?thesis
      by (auto simp: teardown_def grace_elapsed_def)
  next
    case False
    then show ?thesis by (simp add: teardown_def grace_elapsed_def)
  qed
  have b: "\<not> grace_pending (teardown w s)"
  proof (cases "grace_pending (teardown_begin s)")
    case True
    from finish_shape [OF True, of w] True show ?thesis
      by (auto simp: teardown_def grace_elapsed_def)
  next
    case False
    then show ?thesis by (simp add: teardown_def grace_elapsed_def)
  qed
  from a b show ?thesis by (simp add: teardown_def [of w "teardown w s"] grace_elapsed_def)
qed

subsection \<open>The teardown flag while the transport accepts every send\<close>

lemma td_call [simp]: "tearingDown (snd (call w e s)) = tearingDown s"
  by (simp add: call_def)

lemma td_and_then:
  "tearingDown (snd r) = b \<Longrightarrow> (\<And>s1. tearingDown (snd (f s1)) = tearingDown s1)
   \<Longrightarrow> tearingDown (snd (and_then r f)) = b"
  by (cases r) (auto simp: and_then_def split: option.splits)

lemma td_with_spawn:
  "(\<And>c. tearingDown (snd (f c)) = tearingDown s)
   \<Longrightarrow> tearingDown (snd (with_spawn s a f)) = tearingDown s"
  by (auto simp: with_spawn_def split: sum.splits)

lemma td_kill [simp]: "tearingDown (snd (runCode_kill w s)) = tearingDown s"
  by (cases "term_h s") (simp_all add: runCode_kill_def td_with_spawn)

lemma td_suspend [simp]: "tearingDown (snd (suspend w s a i k)) = tearingDown s"
  unfolding suspend_def by (rule td_with_spawn) simp

lemma td_await_mkdir [simp]: "tearingDown (snd (await_mkdir w s c cl)) = tearingDown s"
  by (simp add: await_mkdir_def)

lemma td_await_write [simp]: "tearingDown (snd (await_write w s c cl)) = tearingDown s"
  by (simp add: await_write_def)

lemma td_await_hack [simp]: "tearingDown (snd (await_hack w s c cl)) = tearingDown s"
  by (simp add: await_hack_def)

lemma td_spawn [simp]: "tearingDown (snd (runCode_spawn w s c)) = tearingDown s"
  unfolding runCode_spawn_def Let_def
  by (rule td_with_spawn, rule td_and_then) simp_all

lemma td_resume_try [simp]: "tearingDown (snd (resume_try w s t)) = tearingDown s"
  by (cases "(w, s, t)" rule: resume_try.cases) simp_all

lemma td_logBad [simp]: "tearingDown (snd (logBadMessage s m)) = tearingDown s"
  by (simp add: logBadMessage_def)

lemma ok_send:
  "\<forall>tr m. throws w tr (WsSend m) = None \<Longrightarrow>
   send w s m = (if tearingDown s then s else emit_call (WsSend m) s)"
  by (simp add: send_def call_def)

lemma ok_send_td:
  "\<forall>tr m. throws w tr (WsSend m) = None \<Longrightarrow> tearingDown (send w s m) = tearingDown s"
  by (simp add: ok_send)

lemma ok_sendError_td:
  "\<forall>tr m. throws w tr (WsSend m) = None \<Longrightarrow> tearingDown (sendError w s err) = tearingDown s"
  by (simp add: sendError_def sendError_first_def sendError_rest_def ok_send_td)

lemma ok_sendError:
  "\<forall>tr m. throws w tr (WsSend m) = None \<Longrightarrow> \<not> tearingDown s \<Longrightarrow>
   sendError w s err =
     s\<lparr>trace := trace s @ [WsSend TerminalClear, WsSend (TerminalOutput (error_text err))]\<rparr>"
  by (simp add: sendError_def sendError_first_def sendError_rest_def ok_send emit_call_def)

lemma ok_caught:
  "\<forall>tr m. throws w tr (WsSend m) = None \<Longrightarrow> \<not> tearingDown s \<Longrightarrow>
   sendError w (emit_call (ConsoleLog err) (emit_call (Log l) s)) err =
     s\<lparr>trace := trace s @ [Log l, ConsoleLog err, WsSend TerminalClear,
                             WsSend (TerminalOutput (error_text err))]\<rparr>"
  by (simp add: ok_sendError) (simp add: emit_call_def)

lemma ok_runCode_caught:
  assumes "\<forall>tr m. throws w tr (WsSend m) = None"
  shows "tearingDown (runCode_caught w r) = tearingDown (snd r)"
  by (cases r) (simp add: runCode_caught_def ok_sendError_td [OF assms] split: option.splits)

lemma ok_begin_try:
  assumes "\<forall>tr m. throws w tr (WsSend m) = None"
  shows "tearingDown (snd (runCode_begin_try w s code)) = tearingDown s"
  unfolding runCode_begin_try_def Let_def
  by (rule td_and_then) (simp_all add: ok_send_td [OF assms])

lemma ok_begin:
  assumes "\<forall>tr m. throws w tr (WsSend m) = None"
  shows "tearingDown (runCode_begin w s code) = tearingDown s"
  by (simp add: runCode_begin_def ok_runCode_caught [OF assms] ok_begin_try [OF assms])

lemma ok_resume:
  assumes "\<forall>tr m. throws w tr (WsSend m) = None"
  shows "tearingDown (resume w s k) = tearingDown s"
  by (simp add: resume_def ok_runCode_caught [OF assms])

lemma ok_runCode:
  assumes "\<forall>tr m. throws w tr (WsSend m) = None"
  shows "tearingDown (runCode w s code) = tearingDown s"
  by (simp add: runCode_def Let_def ok_resume [OF assms] ok_begin [OF assms])

lemma ok_switch:
  assumes "\<forall>tr m. throws w tr (WsSend m) = None"
  shows "tearingDown (snd (receive_switch w s m)) = tearingDown s"
  by (simp add: receive_switch_def ok_begin [OF assms] split: option.splits json.splits)

lemma ok_receive:
  assumes "\<forall>tr m. throws w tr (WsSend m) = None"
  shows "tearingDown (receive w s ev) = tearingDown s"
proof (cases "tearingDown s")
  case True
  then show ?thesis by simp
next
  case False
  show ?thesis
  proof (cases "json_parse w ev")
    case None
    then show ?thesis by (simp add: receive_def)
  next
    case (Some m)
    obtain r s' where sw: "receive_switch w s m = (r, s')" by (cases "receive_switch w s m")
    with ok_switch [OF assms, of s m] have e: "tearingDown s' = tearingDown s" by simp
    with False have f: "\<not> tearingDown s'" by simp
    show ?thesis
      using e f by (cases r) (simp_all add: receive_def Some sw False ok_caught [OF assms])
  qed
qed

lemma ok_setup_try:
  assumes "\<forall>tr m. throws w tr (WsSend m) = None"
  shows "tearingDown (snd (setup_try w s)) = tearingDown s"
proof -
  have l: "tearingDown (snd (setup_lease w s)) = tearingDown s"
    by (simp add: setup_lease_def and_then_def call_def emit_call_def split: option.splits)
  have p: "tearingDown (snd (setup_privileged w x)) = tearingDown x" for x
    by (simp add: setup_privileged_def split: sum.splits)
  have d: "tearingDown (snd (setup_daemon w x)) = tearingDown x" for x
    by (simp add: setup_daemon_def with_spawn_def emit_call_def split: sum.splits)
  have t: "tearingDown (snd (setup_lsp_start w x)) = tearingDown x" for x
    unfolding setup_lsp_start_def
    by (rule td_with_spawn) (simp add: ok_send_td [OF assms] emit_call_def)
  have g: "tearingDown (snd (setup_lsp w x)) = tearingDown x" for x
  proof (cases "truthy (lsp (config x))")
    case False
    then show ?thesis by (simp add: setup_lsp_def)
  next
    case True
    show ?thesis
      unfolding setup_lsp_def if_P [OF True]
      by (rule td_and_then) (simp_all add: td_with_spawn t)
  qed
  have b: "tearingDown (setup_subscribe x) = tearingDown x" for x
    by (simp add: setup_subscribe_def)
  show ?thesis
    unfolding setup_try_def
    by (intro td_and_then) (simp_all add: l p d g b ok_runCode [OF assms])
qed

subsection \<open>A setup that fails registers nothing on the transport\<close>

lemma un_emit_call [simp]: "unsubscribed (emit_call e s) = unsubscribed s"
  by (simp add: unsubscribed_def emit_call_def)

lemma un_call [simp]: "unsubscribed (snd (call w e s)) = unsubscribed s"
  by (simp add: call_def)

lemma un_teardown_begin [simp]: "unsubscribed (teardown_begin s) = unsubscribed s"
  by (simp add: unsubscribed_def teardown_begin_def emit_call_def)

lemma un_send [simp]: "unsubscribed (send w s m) = unsubscribed s"
  by (simp add: send_def call_def split: option.splits)

lemma un_sendError [simp]: "unsubscribed (sendError w s err) = unsubscribed s"
  by (simp add: sendError_def sendError_first_def sendError_rest_def)

lemma un_and_then:
  "unsubscribed (snd r) \<Longrightarrow> (\<And>s1. unsubscribed s1 \<Longrightarrow> unsubscribed (snd (f s1)))
   \<Longrightarrow> unsubscribed (snd (and_then r f))"
  by (cases r) (auto simp: and_then_def split: option.splits)

lemma un_with_spawn:
  "unsubscribed s \<Longrightarrow> (\<And>c. unsubscribed (snd (f c)))
   \<Longrightarrow> unsubscribed (snd (with_spawn s a f))"
  by (auto simp: with_spawn_def split: sum.splits)

lemma un_kill: "unsubscribed s \<Longrightarrow> unsubscribed (snd (runCode_kill w s))"
  by (cases "term_h s")
     (auto simp: runCode_kill_def with_spawn_def unsubscribed_def emit_call_def split: sum.splits)

lemma un_await_now: "unsubscribed s \<Longrightarrow> unsubscribed (snd (await_now w s a i))"
  by (simp add: await_now_def un_with_spawn)

lemma un_spawn: "unsubscribed s \<Longrightarrow> unsubscribed (snd (runCode_spawn w s c))"
  by (auto simp: runCode_spawn_def with_spawn_def and_then_def call_def emit_call_def Let_def
        unsubscribed_def split: sum.splits option.splits)

lemma un_after_write: "unsubscribed s \<Longrightarrow> unsubscribed (snd (after_write w s c cl))"
  unfolding after_write_def
  by (auto intro!: un_and_then un_await_now un_spawn)

lemma un_after_mkdir: "unsubscribed s \<Longrightarrow> unsubscribed (snd (after_mkdir w s c cl))"
  unfolding after_mkdir_def
  by (intro un_and_then un_await_now un_after_write)

lemma un_straight: "unsubscribed s \<Longrightarrow> unsubscribed (snd (runCode_straight w s code))"
  unfolding runCode_straight_def Let_def
  by (rule un_and_then)
     (auto intro!: un_kill un_and_then un_await_now un_after_mkdir)

lemma un_runCode: "unsubscribed s \<Longrightarrow> unsubscribed (runCode w s code)"
proof -
  assume u: "unsubscribed s"
  obtain r s' where p: "runCode_straight w s code = (r, s')"
    by (cases "runCode_straight w s code")
  with un_straight [OF u, of w code] have "unsubscribed s'" by simp
  then show ?thesis by (cases r) (simp_all add: runCode_alone runCode_caught_def p)
qed

lemma un_lease: "unsubscribed s \<Longrightarrow> unsubscribed (snd (setup_lease w s))"
  by (auto simp: setup_lease_def and_then_def call_def emit_call_def unsubscribed_def
           split: option.splits)

lemma un_privileged: "unsubscribed s \<Longrightarrow> unsubscribed (snd (setup_privileged w s))"
  by (simp add: setup_privileged_def split: sum.splits)

lemma un_daemon: "unsubscribed s \<Longrightarrow> unsubscribed (snd (setup_daemon w s))"
  by (auto simp: setup_daemon_def with_spawn_def emit_call_def unsubscribed_def daemon_round_def
           split: sum.splits)

lemma un_lsp: "unsubscribed s \<Longrightarrow> unsubscribed (snd (setup_lsp w s))"
  by (auto simp: setup_lsp_def setup_lsp_start_def with_spawn_def and_then_def call_def
        emit_call_def unsubscribed_def send_def teardown_begin_def
        split: sum.splits option.splits)

lemma and_then_fails:
  "and_then r f = (Some e, s') \<Longrightarrow>
   r = (Some e, s') \<or> (\<exists>s1. r = (None, s1) \<and> f s1 = (Some e, s'))"
  by (cases r) (auto simp: and_then_def split: option.splits)

lemma and_then_succeeds:
  "and_then r f = (None, s') \<Longrightarrow> \<exists>s1. r = (None, s1) \<and> f s1 = (None, s')"
  by (cases r) (auto simp: and_then_def split: option.splits)

text \<open>The stages at which the body of \<open>setup\<close> can throw.\<close>

lemma setup_try_fails:
  assumes "setup_try w s = (Some err, s')"
  obtains "setup_lease w s = (Some err, s')"
    | s1 where "setup_lease w s = (None, s1)" "setup_privileged w s1 = (Some err, s')"
    | s1 s2 where "setup_lease w s = (None, s1)" "setup_privileged w s1 = (None, s2)"
        "setup_daemon w (runCode w s2 None) = (Some err, s')"
    | s1 s2 s3 where "setup_lease w s = (None, s1)" "setup_privileged w s1 = (None, s2)"
        "setup_daemon w (runCode w s2 None) = (None, s3)" "setup_lsp w s3 = (Some err, s')"
  using assms [unfolded setup_try_def] by (auto dest!: and_then_fails)

lemma un_failed_setup:
  assumes "setup_try w s = (Some err, s')" and "unsubscribed s"
  shows "unsubscribed s'"
  using assms(1)
proof (cases rule: setup_try_fails)
  case 1
  with un_lease [OF assms(2), of w] show ?thesis by simp
next
  case (2 s1)
  with un_lease [OF assms(2), of w] have "unsubscribed s1" by simp
  from un_privileged [OF this, of w] 2 show ?thesis by simp
next
  case (3 s1 s2)
  with un_lease [OF assms(2), of w] have "unsubscribed s1" by simp
  from un_privileged [OF this, of w] 3 have "unsubscribed s2" by simp
  from un_daemon [OF un_runCode [OF this], of w w None] 3 show ?thesis by simp
next
  case (4 s1 s2 s3)
  with un_lease [OF assms(2), of w] have "unsubscribed s1" by simp
  from un_privileged [OF this, of w] 4 have "unsubscribed s2" by simp
  from un_daemon [OF un_runCode [OF this], of w w None] 4 have "unsubscribed s3" by simp
  from un_lsp [OF this, of w] 4 show ?thesis by simp
qed

lemma frames_append [simp]: "frames (es @ fs) = frames es @ frames fs"
  by (simp add: frames_def List.map_filter_def)

lemma tearingDown_run_events: "tearingDown s \<Longrightarrow> tearingDown (run_events w s evs)"
  using evolves_run_events [of s w evs] by (simp add: evolves_def)

text \<open>
  C7. Once the teardown flag is set it stays set, and in every state reached from
  then on a received transport message leaves the session as it is (no call of any
  kind, so no outbound frame), \<open>send\<close> returns before it reaches the transport, and
  the data that any subsystem emits runs its callbacks without any effect.
\<close>

theorem teardown_silences_session:
  assumes "tearingDown s"
  shows "receive w (run_events w s evs) ev = run_events w s evs
       \<and> send w (run_events w s evs) m = run_events w s evs
       \<and> fire w (run_events w s evs) em n (Data d) = run_events w s evs"
  using tearingDown_run_events [OF assms, of w evs]
  by (simp add: fire_def foldl_invoke_idle)

theorem teardown_silences_session_witness:
  "tearingDown (teardown_begin (create calm ''u'' plain_lang))
   \<and> receive calm (run_events calm (teardown_begin (create calm ''u'' plain_lang)) [GraceElapsed]) ''{}''
       = run_events calm (teardown_begin (create calm ''u'' plain_lang)) [GraceElapsed]"
  using teardown_silences_session
          [of "teardown_begin (create calm ''u'' plain_lang)" calm "[GraceElapsed]" "''{}''"]
  by simp

subsection \<open>The daemon's exit\<close>

text \<open>
  C3. A session of a language with a daemon is set up in a world where no call
  throws; then the daemon exits with signal \<open>KILL\<close>. The frames handed to the
  transport end with two \<open>serviceFailed\<close> frames for the daemon, not one: the
  \<open>exit\<close> callback is registered once in each round of the loop over the two
  output streams.
\<close>

theorem daemon_exit_reported_twice:
  "frames (trace (run_events calm (create calm ''u'' daemon_lang)
             [Fire DaemonProc ''exit'' (Exit None (Some ''KILL''))]))
   = [TerminalClear, LspStarted ''/tmp/riju/u'',
      ServiceFailed ''daemon'' ''Exited with status KILL'',
      ServiceFailed ''daemon'' ''Exited with status KILL'']"
  by (simp add: run_defs world_defs frame_defs)

text \<open>The language server, whose callbacks are registered outside any loop, reports once.\<close>

lemma lsp_exit_reported_once:
  "frames (trace (run_events calm (create calm ''u'' daemon_lang)
             [Fire LspProc ''exit'' (Exit None (Some ''KILL''))]))
   = [TerminalClear, LspStarted ''/tmp/riju/u'',
      ServiceFailed ''lsp'' ''Exited with status KILL'']"
  by (simp add: run_defs world_defs frame_defs)

subsection \<open>The resolution of Run-Code\<close>

lemma cmdline_of_spec:
  "cmdline_of cfg code =
     spec_cmdline (cfg\<lparr>compile := nonempty (compile cfg), repl := nonempty (repl cfg)\<rparr>)
       (nonempty code)"
  by (cases code; cases "compile cfg"; cases "repl cfg")
     (simp_all add: cmdline_of_def spec_cmdline_def nonempty_def)

lemma deployed_code_spec:
  "deployed_code cfg code =
     (if spec_deployed_code (cfg\<lparr>suffix := None\<rparr>) code = [] then []
      else spec_deployed_code cfg code)"
  by (cases code; cases "suffix cfg")
     (auto simp: deployed_code_def spec_deployed_code_def Let_def)

lemma calm_call: "\<forall>tr e. throws w tr e = None \<Longrightarrow> call w e s = (None, emit_call e s)"
  by (simp add: call_def)

lemma calm_send:
  "\<forall>tr e. throws w tr e = None \<Longrightarrow>
   send w s m = (if tearingDown s then s else emit_call (WsSend m) s)"
  by (simp add: send_def call_def)

text \<open>
  C5, as stated, fails: code that is supplied but empty selects the REPL command,
  not the run command, and a configured suffix is not appended to an empty program.
\<close>

theorem resolution_counterexample:
  "cmdline_of plain_lang (Some []) \<noteq> spec_cmdline plain_lang (Some [])
   \<and> deployed_code plain_lang None \<noteq> spec_deployed_code plain_lang None"
  by (simp add: cmdline_of_def spec_cmdline_def deployed_code_def spec_deployed_code_def
        plain_lang_def)

text \<open>
  C5, amended. In a session with a leased uid, when no call throws, Run-Code starts
  the terminal with the command line of the specification and writes the code of the
  specification, where an empty string counts as absent: the run command (wrapped
  when a non-empty compile command exists) if non-empty code is supplied, else the
  REPL command if a non-empty one exists, else the message command; the code
  defaults to the empty program or the template when none is supplied, and the
  suffix is appended when the code is not empty.
\<close>

theorem run_code_resolution:
  assumes "uidInfo s = Some u" and "\<forall>tr e. throws w tr e = None"
  shows "PtySpawn (length (term_live s)) (PrivilegedSpawn (Context u (uuid s))
           (Bash (spec_cmdline ((config s)\<lparr>compile := nonempty (compile (config s)),
                                           repl := nonempty (repl (config s))\<rparr>) (nonempty code))))
         \<in> set (trace (runCode w s code))
       \<and> Run (PrivilegedSpawn (Context u (uuid s))
               (Args [''sh'', ''-c'', ''cat > '' @ path_resolve w (homedir s) (main (config s))]))
            (Some (if spec_deployed_code ((config s)\<lparr>suffix := None\<rparr>) code = [] then []
                   else spec_deployed_code (config s) code))
         \<in> set (trace (runCode w s code))"
  using assms
  apply (simp only: cmdline_of_spec [symmetric] deployed_code_spec [symmetric] runCode_alone)
  apply (simp add: runCode_straight_def runCode_caught_def runCode_kill_def after_mkdir_def
      after_write_def await_now_def needs_mkdir_def mkdir_args_def write_args_def hack_args_def
      hack_input_def has_ghci_hack_def runCode_spawn_def with_spawn_def get_context_def
      and_then_def calm_call calm_send emit_call_def homedir_def Let_def split: option.splits)
  done

theorem run_code_resolution_witness:
  "uidInfo (create calm ''u'' plain_lang) = Some 1000
   \<and> PtySpawn 1 (PrivilegedSpawn (Context 1000 ''u'') (Bash ''plain main.txt''))
       \<in> set (trace (runCode calm (create calm ''u'' plain_lang) (Some ''print(1)'')))
   \<and> Run (PrivilegedSpawn (Context 1000 ''u'') (Args [''sh'', ''-c'', ''cat > /tmp/riju/u/main.txt'']))
        (Some ''print(1)S'')
       \<in> set (trace (runCode calm (create calm ''u'' plain_lang) (Some ''print(1)'')))"
proof -
  have h1: "uidInfo (create calm ''u'' plain_lang) = Some 1000"
    by (simp add: run_defs world_defs frame_defs)
  have h2: "\<forall>tr e. throws calm tr e = None" by (simp add: calm_def)
  have l: "length (term_live (create calm ''u'' plain_lang)) = 1"
    by (simp add: run_defs world_defs frame_defs)
  have u: "uuid (create calm ''u'' plain_lang) = ''u''"
    by (simp add: run_defs world_defs frame_defs)
  have c: "config (create calm ''u'' plain_lang) = plain_lang"
    by (simp add: run_defs world_defs frame_defs)
  have r: "path_resolve calm (homedir (create calm ''u'' plain_lang)) (main plain_lang)
            = ''/tmp/riju/u/main.txt''"
    by (simp add: run_defs world_defs frame_defs)
  note t = run_code_resolution [OF h1 h2, of "Some ''print(1)''", unfolded l u c r]
  from t h1 show ?thesis
    by (simp add: spec_cmdline_def spec_deployed_code_def nonempty_def plain_lang_def)
qed

subsection \<open>The diagnostic of a failed setup\<close>

text \<open>
  C10. A session whose lease fails, and one whose privileged setup fails, are run
  until the timer of teardown has elapsed. The only frame handed to the transport is
  \<open>terminalClear\<close>: the \<open>terminalOutput\<close> frame with the error is never sent, because
  the handler of \<open>setup\<close> does not await \<open>sendError\<close> and \<open>teardown\<close> sets the flag
  before the second send runs.
\<close>

theorem setup_failure_sends_only_clear:
  "frames (trace (run_events no_lease (create no_lease ''u'' plain_lang) [GraceElapsed]))
     = [TerminalClear]
   \<and> frames (trace (run_events no_homedir (create no_homedir ''u'' plain_lang) [GraceElapsed]))
     = [TerminalClear]"
  by (simp add: run_defs world_defs frame_defs null_uid_error_def)

subsection \<open>Teardown and its triggers\<close>

text \<open>
  Every trigger begins teardown: the close and the error of the transport, a send
  that throws, and a setup that throws. When the flag was not set before, the
  trigger sets it and starts the timer of 5000 ms.
\<close>

lemma triggers_begin_teardown:
  "tearingDown (invoke w s OnWsClose a)
   \<and> tearingDown (invoke w s OnWsError (Err e))
   \<and> (throws w (trace s) (WsSend m) \<noteq> None \<longrightarrow> tearingDown (send w s m))
   \<and> (fst (setup_try w (new_session u cfg)) \<noteq> None \<longrightarrow> tearingDown (create w u cfg))
   \<and> (\<not> tearingDown s \<longrightarrow>
        grace_pending (teardown_begin s) \<and> timers (teardown_begin s) = timers s @ [SetTimeout 5000])"
proof -
  have "tearingDown (send w s m)" if "throws w (trace s) (WsSend m) \<noteq> None"
    using that by (cases "tearingDown s") (auto simp: send_def call_def)
  moreover have "tearingDown (create w u cfg)" if "fst (setup_try w (new_session u cfg)) \<noteq> None"
  proof -
    obtain r s' where p: "setup_try w (new_session u cfg) = (r, s')"
      by (cases "setup_try w (new_session u cfg)")
    with that obtain err where "r = Some err" by auto
    with p have c: "create w u cfg = setup_catch w s' err"
      by (simp add: create_def session_setup_def)
    have "tearingDown (sendError_rest w x err)" if "tearingDown x" for x
      using that by (simp add: sendError_rest_def)
    then show ?thesis by (simp add: c setup_catch_def Let_def)
  qed
  moreover have "grace_pending (teardown_begin s)
                 \<and> timers (teardown_begin s) = timers s @ [SetTimeout 5000]"
    if "\<not> tearingDown s"
    using that by (simp add: teardown_begin_def emit_call_def timers_def)
  ultimately show ?thesis by simp
qed

text \<open>
  In every session reached from its creation by any events (closes and errors of the
  transport, messages, failing sends, continuations of Run-Code, data and exits of
  the processes, the timer), a further call of \<open>teardown\<close> changes nothing once one
  has been made. The timer is started at most once, and exactly once when the flag
  is set; nothing is released while it runs; the privileged cleanup, the return of
  the uid and the close of the transport are each called at most once; and when none
  of these three calls throws and the session holds a uid, then after the timer has
  elapsed exactly these three calls have been made, in this order.
\<close>

lemma release_sequence_at_most_once:
  "teardown_begin (teardown_begin (run_events w (create w u cfg) evs))
     = teardown_begin (run_events w (create w u cfg) evs)
   \<and> teardown w (teardown w (run_events w (create w u cfg) evs))
     = teardown w (run_events w (create w u cfg) evs)
   \<and> count_calls is_timer (run_events w (create w u cfg) evs) \<le> 1
   \<and> count_calls is_cleanup (run_events w (create w u cfg) evs) \<le> 1
   \<and> count_calls is_return (run_events w (create w u cfg) evs) \<le> 1
   \<and> count_calls is_terminate (run_events w (create w u cfg) evs) \<le> 1
   \<and> (tearingDown (run_events w (create w u cfg) evs) \<longrightarrow>
        timers (run_events w (create w u cfg) evs) = [SetTimeout 5000])
   \<and> (grace_pending (run_events w (create w u cfg) evs) \<longrightarrow>
        releases (run_events w (create w u cfg) evs) = [])
   \<and> ((\<forall>tr e. is_release e \<longrightarrow> throws w tr e = None) \<longrightarrow>
        tearingDown (run_events w (create w u cfg) evs) \<longrightarrow>
        \<not> grace_pending (run_events w (create w u cfg) evs) \<longrightarrow>
        uidInfo (run_events w (create w u cfg) evs) = Some uid \<longrightarrow>
        releases (run_events w (create w u cfg) evs)
          = [Run (PrivilegedTeardown (Context uid u)) None, ReturnUID uid, WsTerminate])"
proof -
  let ?S = "run_events w (create w u cfg) evs"
  from create_idle [of w u cfg] have i: "td_inv ?S" by (simp add: td_inv_run_events)
  have u: "uuid ?S = u" using create_idle [of w u cfg] by (simp add: uuid_run_events)
  have a: "teardown_begin (teardown_begin ?S) = teardown_begin ?S" by simp
  have b: "teardown w (teardown w ?S) = teardown w ?S" by (rule teardown_twice)
  note c = td_inv_counts [OF i]
  have d: "timers ?S = [SetTimeout 5000]" if "tearingDown ?S"
    using i that by (simp add: td_inv_def)
  have e: "releases ?S = []" if "grace_pending ?S"
    using i that by (auto simp: td_inv_def split: if_splits)
  have f: "releases ?S = [Run (PrivilegedTeardown (Context uid u)) None, ReturnUID uid, WsTerminate]"
    if h: "\<forall>tr e. is_release e \<longrightarrow> throws w tr e = None" and t: "tearingDown ?S"
      and g: "\<not> grace_pending ?S" and v: "uidInfo ?S = Some uid"
  proof -
    from h have k: "3 = 2 \<and> (\<forall>tr e. is_cleanup e \<longrightarrow> throws w tr e = None)
                    \<or> 3 = 3 \<and> (\<forall>tr e. is_release e \<longrightarrow> throws w tr e = None)" by simp
    from create_idle [of w u cfg 3]
    have "release_reached 3 ?S" by (simp add: release_reached_run_events [OF k])
    with t g v have l: "3 \<le> length (releases ?S)" by (simp add: release_reached_def)
    from td_inv_prefix [OF i] obtain n where n: "releases ?S = take n (release_seq ?S)" by blast
    have seq: "release_seq ?S
               = [Run (PrivilegedTeardown (Context uid u)) None, ReturnUID uid, WsTerminate]"
      by (simp add: release_seq_def v u)
    from l n seq have "3 \<le> n" by simp
    with n seq show ?thesis by simp
  qed
  from a b c d e f show ?thesis by blast
qed

subsection \<open>Teardown after a failed lease\<close>

text \<open>
  C1. A session whose lease fails is torn down by the handler of \<open>setup\<close>; the timer
  of teardown elapses, and \<open>teardown\<close> is then called once more. These are all the
  calls the session ever makes: the timer is started, and then \<open>teardown\<close> throws in
  the getter \<open>context\<close> (\<open>this.uidInfo!.uid\<close> with no lease) before the privileged
  cleanup is issued, so the cleanup is never run and the transport is never closed;
  the session has nevertheless finished its teardown.
\<close>

theorem failed_lease_never_closes_transport:
  "trace (teardown no_lease (run_events no_lease (create no_lease ''u'' plain_lang) [GraceElapsed]))
     = [Log CreatingSession, BorrowUser, Log SetupError, ConsoleLog ''no uid left'',
        WsSend TerminalClear, Log TearingDown, SetTimeout 5000,
        Log TeardownError, ConsoleLog ''TypeError: Cannot read properties of null'']
   \<and> tearingDown (run_events no_lease (create no_lease ''u'' plain_lang) [GraceElapsed])
   \<and> \<not> grace_pending (run_events no_lease (create no_lease ''u'' plain_lang) [GraceElapsed])
   \<and> count_calls is_cleanup
        (teardown no_lease (run_events no_lease (create no_lease ''u'' plain_lang) [GraceElapsed])) = 0
   \<and> count_calls is_terminate
        (teardown no_lease (run_events no_lease (create no_lease ''u'' plain_lang) [GraceElapsed])) = 0"
  by (simp add: run_defs world_defs count_calls_def null_uid_error_def)

subsection \<open>A superseded terminal\<close>

lemma evolves_dead:
  "evolves s s' \<Longrightarrow> h < length (term_live s) \<Longrightarrow> \<not> term_live s ! h
   \<Longrightarrow> h < length (term_live s') \<and> \<not> term_live s' ! h"
  by (auto simp: evolves_def)

lemma registered_pty:
  "wf s \<Longrightarrow> l \<in> set (registered s (Pty h) ev) \<Longrightarrow> l = OnPtyData h"
  by (auto simp: wf_def registered_def list_all_iff pty_listener_ok_def)

lemma foldl_invoke_dead:
  "\<not> term_live s ! h \<Longrightarrow> \<forall>l \<in> set ls. l = OnPtyData h
   \<Longrightarrow> foldl (\<lambda>s' l. invoke w s' l (Data d)) s ls = s"
  by (induction ls) simp_all

lemma fire_dead:
  "wf s \<Longrightarrow> \<not> term_live s ! h \<Longrightarrow> fire w s (Pty h) ev (Data d) = s"
  unfolding fire_def
  by (rule foldl_invoke_dead) (auto dest: registered_pty)

lemma kill_live:
  assumes "wf s" and "term_h s = Some h"
  shows "\<exists>u. uidInfo s = Some u \<and>
     runCode_kill w s =
       (None, (emit_call (Spawn (PrivilegedSpawn (Context u (uuid s)) (Bash (kill_cmd w (pty_pid w h))))) s)
                 \<lparr>term_live := (term_live s)[h := False], term_h := None\<rparr>)"
  using assms
  by (auto simp: wf_def runCode_kill_def with_spawn_def get_context_def)

text \<open>
  What does hold: the kill block of Run-Code marks the terminal in the field dead
  before anything else is done, a terminal marked dead stays dead, and the data of a
  dead terminal is never forwarded, whatever happens afterwards.
\<close>

lemma dead_terminal_is_silent:
  assumes "wf s" and "h < length (term_live s)" and "\<not> term_live s ! h"
  shows "fire w (run_events w s evs) (Pty h) ev (Data d) = run_events w s evs"
  using evolves_dead [OF evolves_run_events assms(2,3), of w evs] wf_run_events [OF assms(1), of w evs]
  by (simp add: fire_dead)

lemma killed_terminal_is_silent:
  assumes "wf s" and "term_h s = Some h" and "runCode_kill w s = (x, s1)"
  shows "x = None \<and> term_h s1 = None \<and> \<not> term_live s1 ! h
         \<and> fire w (run_events w s1 evs) (Pty h) ev (Data d) = run_events w s1 evs"
proof -
  from assms(1,2) have len: "h < length (term_live s)" by (simp add: wf_def)
  from kill_live [OF assms(1,2), of w] assms(3)
  have k: "x = None" "term_h s1 = None" "term_live s1 = (term_live s)[h := False]"
    by (auto simp: emit_call_def)
  from evolves_kill [of s w] assms(1,3) have wf1: "wf s1" by (simp add: evolves_def)
  from k(3) len have d1: "h < length (term_live s1)" "\<not> term_live s1 ! h" by simp_all
  from dead_terminal_is_silent [OF wf1 d1] k d1 show ?thesis by simp
qed

text \<open>
  C2. A session is set up (its first terminal is terminal 0), and the client sends
  two Run-Code requests in a row. Nothing serialises \<open>receive\<close>: the second request
  starts while the first waits for the write of its code. The first request has
  killed terminal 0 and cleared the field, so the second finds no terminal to mark
  dead. When the two writes have finished, the first request starts terminal 1 and
  the second starts terminal 2 and overwrites the field: terminal 1 is superseded,
  but its \<open>live\<close> flag is still true, and the output it produces is forwarded to the
  client as a \<open>terminalOutput\<close> frame.
\<close>

theorem overlapping_requests_forward_old_output:
  "term_live (run_events (parsing run_frame run_json calm)
                (create (parsing run_frame run_json calm) ''u'' plain_lang)
                [Fire Ws ''message'' (Data run_frame), Fire Ws ''message'' (Data run_frame),
                 Resume 0, Resume 0])
     = [False, True, True]
   \<and> term_h (run_events (parsing run_frame run_json calm)
                (create (parsing run_frame run_json calm) ''u'' plain_lang)
                [Fire Ws ''message'' (Data run_frame), Fire Ws ''message'' (Data run_frame),
                 Resume 0, Resume 0])
     = Some 2
   \<and> frames (trace (run_events (parsing run_frame run_json calm)
                (create (parsing run_frame run_json calm) ''u'' plain_lang)
                [Fire Ws ''message'' (Data run_frame), Fire Ws ''message'' (Data run_frame),
                 Resume 0, Resume 0, Fire (Pty 1) ''data'' (Data ''old'')]))
     = [TerminalClear, TerminalClear, TerminalClear, TerminalOutput ''old'']"
  by (simp add: run_defs world_defs frame_defs run_frame_def run_json_def nth_append)

subsection \<open>Malformed frames\<close>

lemma switch_value_tag:
  "switch_value m = Some (JStr t) \<Longrightarrow> t \<noteq> [] \<Longrightarrow> frame_tag m = Some t"
  by (cases m) (auto simp: switch_value_def frame_tag_def split: if_splits)

lemma tag_switch_value: "frame_tag m = Some t \<Longrightarrow> switch_value m = Some (JStr t)"
  by (cases m) (auto simp: switch_value_def frame_tag_def split: option.splits json.splits)

lemma no_tag_switch_value:
  "frame_tag m = None \<Longrightarrow> t \<noteq> [] \<Longrightarrow> switch_value m \<noteq> Some (JStr t)"
  using switch_value_tag [of m t] by auto

lemma typeof_string: "(js_typeof x = ''string'') = is_string x"
  by (cases x rule: js_typeof.cases) simp_all

lemma typeof_object: "(js_typeof x = ''object'') = (is_object x \<or> x = Some JNull)"
  by (cases x rule: js_typeof.cases) simp_all

lemma not_string_cases:
  "\<not> is_string x \<Longrightarrow> (case x of Some (JStr i) \<Rightarrow> f i | _ \<Rightarrow> g) = g"
  by (cases x rule: js_typeof.cases) simp_all

text \<open>
  A malformed frame, other than \<open>lspInput\<close> with \<open>input: null\<close>, reaches
  \<open>logBadMessage\<close> and nothing else.
\<close>

lemma malformed_reaches_logBadMessage:
  assumes bad: "spec_malformed m"
    and nn: "\<not> (frame_tag m = Some ''lspInput'' \<and> js_get m ''input'' = Some JNull)"
  shows "receive_switch w s m = logBadMessage s m"
proof (cases "frame_tag m")
  case None
  from no_tag_switch_value [OF None] show ?thesis by (simp add: receive_switch_def)
next
  case (Some t)
  note sv = tag_switch_value [OF Some]
  consider "t = ''terminalInput''" | "t = ''runCode''" | "t = ''lspInput''"
    | "t \<noteq> ''terminalInput''" "t \<noteq> ''runCode''" "t \<noteq> ''lspInput''" by blast
  then show ?thesis
  proof cases
    case 1
    with bad Some have "\<not> is_string (js_get m ''input'')" by (simp add: spec_malformed_def)
    with 1 sv show ?thesis by (simp add: receive_switch_def not_string_cases)
  next
    case 2
    with bad Some have "\<not> is_string (js_get m ''code'')" by (simp add: spec_malformed_def)
    with 2 sv show ?thesis by (simp add: receive_switch_def not_string_cases)
  next
    case 3
    with bad Some nn have "js_typeof (js_get m ''input'') \<noteq> ''object''"
      by (simp add: spec_malformed_def typeof_object)
    with 3 sv show ?thesis by (simp add: receive_switch_def)
  next
    case 4
    with sv show ?thesis by (simp add: receive_switch_def)
  qed
qed




subsection \<open>A setup that fails\<close>

lemma setup_catch_shape:
  "tearingDown (setup_catch w s err)
   \<and> unsubscribed (setup_catch w s err) = unsubscribed s
   \<and> trace (setup_catch w s err)
       = trace s @ [Log SetupError, ConsoleLog err]
         @ (if tearingDown s then []
            else WsSend TerminalClear
                 # (case throws w (trace s @ [Log SetupError, ConsoleLog err]) (WsSend TerminalClear) of
                      None \<Rightarrow> [] | Some e \<Rightarrow> [Log (SendFailed e)])
                 @ [Log TearingDown, SetTimeout 5000])"
  by (auto simp: setup_catch_def sendError_first_def sendError_rest_def send_def Let_def
        call_def emit_call_def teardown_begin_def unsubscribed_def
        split: option.splits)

lemma lease_result:
  assumes "setup_lease w (new_session u cfg) = (None, s1)"
  shows "uidInfo s1 = Some (borrow_uid w) \<and> uuid s1 = u \<and> config s1 = cfg
         \<and> trace s1 = [Log CreatingSession, BorrowUser, Log (BorrowedUid (borrow_uid w))]
         \<and> throws w [Log CreatingSession] BorrowUser = None"
  using assms
  by (auto simp: setup_lease_def and_then_def call_def emit_call_def new_session_def
        split: option.splits)

lemma lease_throws:
  "fst (setup_lease w (new_session u cfg)) = throws w [Log CreatingSession] BorrowUser"
  by (simp add: setup_lease_def and_then_def call_def new_session_def split: option.splits)

lemma privileged_throws:
  "uidInfo s = Some uid \<Longrightarrow>
   fst (setup_privileged w s) = throws w (trace s) (Run (PrivilegedSetup (Context uid (uuid s))) None)"
  by (simp add: setup_privileged_def get_context_def call_def)

lemma daemon_succeeds: "uidInfo s \<noteq> None \<Longrightarrow> fst (setup_daemon w s) = None"
  by (auto simp: setup_daemon_def with_spawn_def get_context_def)

lemma lsp_start_succeeds: "uidInfo s \<noteq> None \<Longrightarrow> fst (setup_lsp_start w s) = None"
  by (auto simp: setup_lsp_start_def with_spawn_def get_context_def)

lemma lsp_throws:
  assumes "uidInfo s = Some uid"
  shows "fst (setup_lsp w s)
         = (if truthy (lsp (config s)) \<and> truthy (lspSetup (config s))
            then throws w (trace s)
                   (Run (PrivilegedSpawn (Context uid (uuid s)) (Bash (the (lspSetup (config s))))) None)
            else None)"
proof -
  let ?e = "Run (PrivilegedSpawn (Context uid (uuid s)) (Bash (the (lspSetup (config s))))) None"
  have u: "uidInfo (emit_call ?e s) \<noteq> None" using assms by (simp add: emit_call_def)
  from assms lsp_start_succeeds [OF u, of w] lsp_start_succeeds [of s w]
  show ?thesis
    by (cases "throws w (trace s) ?e")
       (simp_all add: setup_lsp_def with_spawn_def get_context_def and_then_def call_def)
qed

text \<open>
  After the lease and the privileged setup, the body of \<open>setup\<close> throws exactly when
  the setup command of the language server does: \<open>runCode\<close> never throws into it,
  and starting the daemon and the language server cannot fail.
\<close>

lemma setup_try_after_privileged:
  assumes l: "setup_lease w (new_session u cfg) = (None, s1)"
    and p: "setup_privileged w s1 = (None, s2)"
  shows "\<exists>s3. setup_daemon w (runCode w s2 None) = (None, s3)
           \<and> uidInfo s3 = Some (borrow_uid w) \<and> uuid s3 = u \<and> config s3 = cfg
           \<and> fst (setup_try w (new_session u cfg)) = fst (setup_lsp w s3)"
proof -
  note f = lease_result [OF l]
  from quiet_privileged [of s1 w] p have q2: "quiet s1 s2" by simp
  have q3: "quiet s2 (snd (setup_daemon w (runCode w s2 None)))"
    by (rule quiet_trans [OF quiet_runCode quiet_daemon])
  from quiet_trans [OF q2 q3] f
  have k: "uidInfo (snd (setup_daemon w (runCode w s2 None))) = Some (borrow_uid w)"
    "uuid (snd (setup_daemon w (runCode w s2 None))) = u"
    "config (snd (setup_daemon w (runCode w s2 None))) = cfg"
    by (simp_all add: quiet_def)
  from q2 f have "uidInfo s2 \<noteq> None" by (simp add: quiet_def)
  with quiet_runCode [of s2 w None] have "uidInfo (runCode w s2 None) \<noteq> None"
    by (simp add: quiet_def)
  from daemon_succeeds [OF this, of w]
  obtain s3 where d: "setup_daemon w (runCode w s2 None) = (None, s3)"
    by (cases "setup_daemon w (runCode w s2 None)") auto
  have "fst (setup_try w (new_session u cfg)) = fst (setup_lsp w s3)"
    by (cases "setup_lsp w s3") (auto simp: setup_try_def l p d and_then_def split: option.splits)
  with d k show ?thesis by simp
qed

lemma subscribed:
  "setup_try w s = (None, s') \<Longrightarrow> (Ws, ''message'', OnWsMessage) \<in> set (listeners s')"
  by (auto simp: setup_try_def setup_subscribe_def dest!: and_then_succeeds)




subsection \<open>Errors while handling a message\<close>

lemma ready_kept: "evolves s s' \<Longrightarrow> ready s \<Longrightarrow> \<not> tearingDown s' \<Longrightarrow> ready s'"
  by (auto simp: ready_def evolves_def)

text \<open>
  C8, as stated, fails: \<open>send\<close> tears the session down when the transport throws,
  also when the frame is sent while a client message is handled. The transport
  breaks after the session is ready; the client sends a Run-Code request; the
  \<open>terminalClear\<close> frame of \<open>runCode\<close> cannot be sent, and teardown begins.
\<close>

theorem failing_send_counterexample:
  "ready (create (parsing run_frame run_json send_breaks) ''u'' plain_lang)
   \<and> json_parse (parsing run_frame run_json send_breaks) run_frame = Some run_json
   \<and> tearingDown (receive (parsing run_frame run_json send_breaks)
                     (create (parsing run_frame run_json send_breaks) ''u'' plain_lang) run_frame)
   \<and> Log (SendFailed ''socket closed'')
       \<in> set (trace (receive (parsing run_frame run_json send_breaks)
                        (create (parsing run_frame run_json send_breaks) ''u'' plain_lang) run_frame))
   \<and> timers (receive (parsing run_frame run_json send_breaks)
                (create (parsing run_frame run_json send_breaks) ''u'' plain_lang) run_frame)
       = [SetTimeout 5000]"
  by (simp add: run_defs world_defs timers_def run_json_def)

text \<open>
  C8, amended. In a world whose transport accepts every send, take a session in
  which teardown has not begun. Whatever message it receives, and whichever waiting
  Run-Code request goes on, the teardown flag is still unset afterwards and a ready
  session is still ready. When the \<open>switch\<close> of \<open>receive\<close> throws (a write to the
  terminal or to the language server), \<open>receive\<close> catches the error: it logs it and
  sends the diagnostic (\<open>terminalClear\<close>, then \<open>terminalOutput\<close> with the error and
  the advice), and nothing else changes. When a step of Run-Code throws, before its
  first awaited command or after one, \<open>runCode\<close> does the same; in particular when
  the command it waited for has failed.
\<close>

theorem message_errors_do_not_tear_down:
  assumes "\<forall>tr m. throws w tr (WsSend m) = None" and "\<not> tearingDown s"
  shows "\<not> tearingDown (receive w s ev)
       \<and> (ready s \<longrightarrow> ready (receive w s ev))
       \<and> \<not> tearingDown (resume w s k)
       \<and> (ready s \<longrightarrow> ready (resume w s k))
       \<and> (\<forall>m err s'. json_parse w ev = Some m \<longrightarrow> receive_switch w s m = (Some err, s') \<longrightarrow>
             receive w s ev =
               s'\<lparr>trace := trace s' @
                   [Log HandlingError, ConsoleLog err, WsSend TerminalClear,
                    WsSend (TerminalOutput
                      (''Riju encountered an unexpected error: '' @ err
                       @ [CHR 0x0A, CHR 0x0D, CHR 0x0A, CHR 0x0D]
                       @ ''You may want to save your code and refresh the page.''
                       @ [CHR 0x0A]))]\<rparr>)
       \<and> (\<forall>err s'. runCode_begin_try w s code = (Some err, s') \<longrightarrow>
             runCode_begin w s code =
               s'\<lparr>trace := trace s' @
                   [Log RunCodeError, ConsoleLog err, WsSend TerminalClear,
                    WsSend (TerminalOutput
                      (''Riju encountered an unexpected error: '' @ err
                       @ [CHR 0x0A, CHR 0x0D, CHR 0x0A, CHR 0x0D]
                       @ ''You may want to save your code and refresh the page.''
                       @ [CHR 0x0A]))]\<rparr>)
       \<and> (\<forall>err s'. k < length (waiting s) \<longrightarrow>
             resume_try w (s\<lparr>waiting := take k (waiting s) @ drop (Suc k) (waiting s)\<rparr>)
               (waiting s ! k) = (Some err, s') \<longrightarrow>
             resume w s k =
               s'\<lparr>trace := trace s' @
                   [Log RunCodeError, ConsoleLog err, WsSend TerminalClear,
                    WsSend (TerminalOutput
                      (''Riju encountered an unexpected error: '' @ err
                       @ [CHR 0x0A, CHR 0x0D, CHR 0x0A, CHR 0x0D]
                       @ ''You may want to save your code and refresh the page.''
                       @ [CHR 0x0A]))]\<rparr>)
       \<and> (\<forall>st c cl err. k < length (waiting s) \<longrightarrow> waiting s ! k = Task st c cl (Some err) \<longrightarrow>
             resume w s k =
               s\<lparr>waiting := take k (waiting s) @ drop (Suc k) (waiting s),
                  trace := trace s @
                   [Log RunCodeError, ConsoleLog err, WsSend TerminalClear,
                    WsSend (TerminalOutput
                      (''Riju encountered an unexpected error: '' @ err
                       @ [CHR 0x0A, CHR 0x0D, CHR 0x0A, CHR 0x0D]
                       @ ''You may want to save your code and refresh the page.''
                       @ [CHR 0x0A]))]\<rparr>)"
proof (intro conjI allI impI)
  show a: "\<not> tearingDown (receive w s ev)" using assms by (simp add: ok_receive)
  show "ready (receive w s ev)" if "ready s"
    using ready_kept [OF evolves_receive that a] .
  show b: "\<not> tearingDown (resume w s k)" using assms by (simp add: ok_resume)
  show "ready (resume w s k)" if "ready s"
    using ready_kept [OF evolves_resume that b] .
next
  fix m err s' assume p: "json_parse w ev = Some m" and t: "receive_switch w s m = (Some err, s')"
  from ok_switch [OF assms(1), of s m] t assms(2) have "\<not> tearingDown s'" by simp
  then show "receive w s ev =
      s'\<lparr>trace := trace s' @
          [Log HandlingError, ConsoleLog err, WsSend TerminalClear,
           WsSend (TerminalOutput
             (''Riju encountered an unexpected error: '' @ err
              @ [CHR 0x0A, CHR 0x0D, CHR 0x0A, CHR 0x0D]
              @ ''You may want to save your code and refresh the page.''
              @ [CHR 0x0A]))]\<rparr>"
    using assms(2) by (simp add: receive_def p t ok_caught [OF assms(1)] error_text_def)
next
  fix err s' assume t: "runCode_begin_try w s code = (Some err, s')"
  from ok_begin_try [OF assms(1), of s code] t assms(2) have "\<not> tearingDown s'" by simp
  then show "runCode_begin w s code =
      s'\<lparr>trace := trace s' @
          [Log RunCodeError, ConsoleLog err, WsSend TerminalClear,
           WsSend (TerminalOutput
             (''Riju encountered an unexpected error: '' @ err
              @ [CHR 0x0A, CHR 0x0D, CHR 0x0A, CHR 0x0D]
              @ ''You may want to save your code and refresh the page.''
              @ [CHR 0x0A]))]\<rparr>"
    by (simp add: runCode_begin_def runCode_caught_def t ok_caught [OF assms(1)] error_text_def)
next
  fix err s'
  let ?s0 = "s\<lparr>waiting := take k (waiting s) @ drop (Suc k) (waiting s)\<rparr>"
  assume k: "k < length (waiting s)" and t: "resume_try w ?s0 (waiting s ! k) = (Some err, s')"
  from td_resume_try [of w ?s0 "waiting s ! k"] t assms(2) have "\<not> tearingDown s'" by simp
  then show "resume w s k =
      s'\<lparr>trace := trace s' @
          [Log RunCodeError, ConsoleLog err, WsSend TerminalClear,
           WsSend (TerminalOutput
             (''Riju encountered an unexpected error: '' @ err
              @ [CHR 0x0A, CHR 0x0D, CHR 0x0A, CHR 0x0D]
              @ ''You may want to save your code and refresh the page.''
              @ [CHR 0x0A]))]\<rparr>"
    using k by (simp add: resume_def runCode_caught_def t ok_caught [OF assms(1)] error_text_def)
next
  fix st c cl err
  assume k: "k < length (waiting s)" and t: "waiting s ! k = Task st c cl (Some err)"
  show "resume w s k =
      s\<lparr>waiting := take k (waiting s) @ drop (Suc k) (waiting s),
         trace := trace s @
          [Log RunCodeError, ConsoleLog err, WsSend TerminalClear,
           WsSend (TerminalOutput
             (''Riju encountered an unexpected error: '' @ err
              @ [CHR 0x0A, CHR 0x0D, CHR 0x0A, CHR 0x0D]
              @ ''You may want to save your code and refresh the page.''
              @ [CHR 0x0A]))]\<rparr>"
    using k assms(2)
    by (simp add: resume_def runCode_caught_def t ok_caught [OF assms(1)] error_text_def)
qed

theorem message_errors_do_not_tear_down_witness:
  "ready (create (parsing input_frame input_json no_pty_write) ''u'' plain_lang)
   \<and> json_parse (parsing input_frame input_json no_pty_write) input_frame = Some input_json
   \<and> fst (receive_switch (parsing input_frame input_json no_pty_write)
             (create (parsing input_frame input_json no_pty_write) ''u'' plain_lang) input_json)
       = Some ''pty closed''
   \<and> ready (receive (parsing input_frame input_json no_pty_write)
              (create (parsing input_frame input_json no_pty_write) ''u'' plain_lang) input_frame)
   \<and> trace (receive (parsing input_frame input_json no_pty_write)
              (create (parsing input_frame input_json no_pty_write) ''u'' plain_lang) input_frame)
       = trace (create (parsing input_frame input_json no_pty_write) ''u'' plain_lang)
         @ [PtyWrite 0 ''ls'', Log HandlingError, ConsoleLog ''pty closed'', WsSend TerminalClear,
            WsSend (TerminalOutput
              (''Riju encountered an unexpected error: pty closed''
               @ [CHR 0x0A, CHR 0x0D, CHR 0x0A, CHR 0x0D]
               @ ''You may want to save your code and refresh the page.'' @ [CHR 0x0A]))]
   \<and> ready (receive (parsing run_frame run_json (rejects_code ''print(1+1)S''))
              (create (parsing run_frame run_json (rejects_code ''print(1+1)S'')) ''u'' plain_lang)
              run_frame)
   \<and> waiting (receive (parsing run_frame run_json (rejects_code ''print(1+1)S''))
              (create (parsing run_frame run_json (rejects_code ''print(1+1)S'')) ''u'' plain_lang)
              run_frame)
       = [Task AwaitWrite ''print(1+1)S'' ''plain main.txt'' (Some ''disk full'')]
   \<and> ready (resume (parsing run_frame run_json (rejects_code ''print(1+1)S''))
              (receive (parsing run_frame run_json (rejects_code ''print(1+1)S''))
                 (create (parsing run_frame run_json (rejects_code ''print(1+1)S'')) ''u'' plain_lang)
                 run_frame) 0)
   \<and> trace (resume (parsing run_frame run_json (rejects_code ''print(1+1)S''))
              (receive (parsing run_frame run_json (rejects_code ''print(1+1)S''))
                 (create (parsing run_frame run_json (rejects_code ''print(1+1)S'')) ''u'' plain_lang)
                 run_frame) 0)
       = trace (receive (parsing run_frame run_json (rejects_code ''print(1+1)S''))
                 (create (parsing run_frame run_json (rejects_code ''print(1+1)S'')) ''u'' plain_lang)
                 run_frame)
         @ [Log RunCodeError, ConsoleLog ''disk full'', WsSend TerminalClear,
            WsSend (TerminalOutput
              (''Riju encountered an unexpected error: disk full''
               @ [CHR 0x0A, CHR 0x0D, CHR 0x0A, CHR 0x0D]
               @ ''You may want to save your code and refresh the page.'' @ [CHR 0x0A]))]
   \<and> fst (runCode_begin_try calm (new_session ''u'' plain_lang) None)
       = Some ''TypeError: Cannot read properties of null''
   \<and> trace (runCode_begin calm (new_session ''u'' plain_lang) None)
       = [Log CreatingSession, WsSend TerminalClear, Log RunCodeError,
          ConsoleLog ''TypeError: Cannot read properties of null'', WsSend TerminalClear,
          WsSend (TerminalOutput
              (''Riju encountered an unexpected error: TypeError: Cannot read properties of null''
               @ [CHR 0x0A, CHR 0x0D, CHR 0x0A, CHR 0x0D]
               @ ''You may want to save your code and refresh the page.'' @ [CHR 0x0A]))]"
proof -
  let ?V = "parsing input_frame input_json no_pty_write"
  let ?S = "create ?V ''u'' plain_lang"
  let ?W = "parsing run_frame run_json (rejects_code ''print(1+1)S'')"
  let ?T = "receive ?W (create ?W ''u'' plain_lang) run_frame"
  let ?N = "new_session ''u'' plain_lang"
  have v: "\<forall>tr m. throws ?V tr (WsSend m) = None"
    by (simp add: parsing_def no_pty_write_def calm_def)
  have w: "\<forall>tr m. throws ?W tr (WsSend m) = None"
    by (simp add: parsing_def rejects_code_def calm_def)
  have c: "\<forall>tr m. throws calm tr (WsSend m) = None" by (simp add: calm_def)
  have s: "\<not> tearingDown ?S" and r: "ready ?S" by (simp_all add: run_defs world_defs)
  have t: "\<not> tearingDown ?T" and rt: "ready ?T"
    by (simp_all add: run_defs world_defs run_json_def)
  have n: "\<not> tearingDown ?N" by (simp add: new_session_def)
  have q: "json_parse ?V input_frame = Some input_json" by (simp add: parsing_def)
  have g: "receive_switch ?V ?S input_json = (Some ''pty closed'', emit_call (PtyWrite 0 ''ls'') ?S)"
    by (simp add: run_defs world_defs input_json_def)
  then have g0: "fst (receive_switch ?V ?S input_json) = Some ''pty closed''" by simp
  have k: "(0::nat) < length (waiting ?T)"
    and wt: "waiting ?T = [Task AwaitWrite ''print(1+1)S'' ''plain main.txt'' (Some ''disk full'')]"
    by (simp_all add: run_defs world_defs run_json_def)
  have f: "fst (runCode_begin_try calm ?N None) = Some ''TypeError: Cannot read properties of null''"
    by (simp add: run_defs world_defs null_uid_error_def)
  then have f': "runCode_begin_try calm ?N None
                 = (Some ''TypeError: Cannot read properties of null'',
                    snd (runCode_begin_try calm ?N None))"
    by (simp add: prod_eq_iff)
  have tn: "trace (snd (runCode_begin_try calm ?N None)) = [Log CreatingSession, WsSend TerminalClear]"
    by (simp add: run_defs world_defs)
  note a1 = message_errors_do_not_tear_down [OF v s, where ev = input_frame and k = 0 and code = None]
  note a2 = message_errors_do_not_tear_down [OF w t, where ev = run_frame and k = 0 and code = None]
  note a3 = message_errors_do_not_tear_down [OF c n, where ev = run_frame and k = 0 and code = None]
  from a1 r have b1: "ready (receive ?V ?S input_frame)" by blast
  from a1 q g
  have "receive ?V ?S input_frame
        = (emit_call (PtyWrite 0 ''ls'') ?S)
            \<lparr>trace := trace (emit_call (PtyWrite 0 ''ls'') ?S) @
               [Log HandlingError, ConsoleLog ''pty closed'', WsSend TerminalClear,
                WsSend (TerminalOutput
                  (''Riju encountered an unexpected error: '' @ ''pty closed''
                   @ [CHR 0x0A, CHR 0x0D, CHR 0x0A, CHR 0x0D]
                   @ ''You may want to save your code and refresh the page.''
                   @ [CHR 0x0A]))]\<rparr>"
    by blast
  then have b2: "trace (receive ?V ?S input_frame)
             = trace ?S @ [PtyWrite 0 ''ls'', Log HandlingError, ConsoleLog ''pty closed'',
                  WsSend TerminalClear,
                  WsSend (TerminalOutput
                    (''Riju encountered an unexpected error: pty closed''
                     @ [CHR 0x0A, CHR 0x0D, CHR 0x0A, CHR 0x0D]
                     @ ''You may want to save your code and refresh the page.'' @ [CHR 0x0A]))]"
    by (simp add: emit_call_def)
  from a2 rt have b3: "ready (resume ?W ?T 0)" by blast
  from wt have wt0: "waiting ?T ! 0
                     = Task AwaitWrite ''print(1+1)S'' ''plain main.txt'' (Some ''disk full'')"
    by simp
  from a2 k wt0
  have "resume ?W ?T 0
        = ?T\<lparr>waiting := take 0 (waiting ?T) @ drop (Suc 0) (waiting ?T),
              trace := trace ?T @
               [Log RunCodeError, ConsoleLog ''disk full'', WsSend TerminalClear,
                WsSend (TerminalOutput
                  (''Riju encountered an unexpected error: '' @ ''disk full''
                   @ [CHR 0x0A, CHR 0x0D, CHR 0x0A, CHR 0x0D]
                   @ ''You may want to save your code and refresh the page.''
                   @ [CHR 0x0A]))]\<rparr>"
    by blast
  then have b4: "trace (resume ?W ?T 0)
             = trace ?T @ [Log RunCodeError, ConsoleLog ''disk full'', WsSend TerminalClear,
                  WsSend (TerminalOutput
                    (''Riju encountered an unexpected error: disk full''
                     @ [CHR 0x0A, CHR 0x0D, CHR 0x0A, CHR 0x0D]
                     @ ''You may want to save your code and refresh the page.'' @ [CHR 0x0A]))]"
    by simp
  from a3 f'
  have "runCode_begin calm ?N None
        = (snd (runCode_begin_try calm ?N None))
            \<lparr>trace := trace (snd (runCode_begin_try calm ?N None)) @
               [Log RunCodeError, ConsoleLog ''TypeError: Cannot read properties of null'',
                WsSend TerminalClear,
                WsSend (TerminalOutput
                  (''Riju encountered an unexpected error: ''
                   @ ''TypeError: Cannot read properties of null''
                   @ [CHR 0x0A, CHR 0x0D, CHR 0x0A, CHR 0x0D]
                   @ ''You may want to save your code and refresh the page.''
                   @ [CHR 0x0A]))]\<rparr>"
    by blast
  with tn have b5: "trace (runCode_begin calm ?N None)
       = [Log CreatingSession, WsSend TerminalClear, Log RunCodeError,
          ConsoleLog ''TypeError: Cannot read properties of null'', WsSend TerminalClear,
          WsSend (TerminalOutput
              (''Riju encountered an unexpected error: TypeError: Cannot read properties of null''
               @ [CHR 0x0A, CHR 0x0D, CHR 0x0A, CHR 0x0D]
               @ ''You may want to save your code and refresh the page.'' @ [CHR 0x0A]))]"
    by simp
  from r q g0 rt wt f b1 b2 b3 b4 b5 show ?thesis by simp
qed

subsection \<open>A Run-Code that fails\<close>

lemma tm_emit_call [simp]:
  "term_h (emit_call e s) = term_h s" "term_live (emit_call e s) = term_live s"
  by (simp_all add: emit_call_def)

lemma tm_teardown_begin [simp]:
  "term_h (teardown_begin s) = term_h s" "term_live (teardown_begin s) = term_live s"
  by (simp_all add: teardown_begin_def)

lemma tm_send [simp]:
  "term_h (send w s m) = term_h s" "term_live (send w s m) = term_live s"
  by (simp_all add: send_def call_def split: option.splits)

lemma tm_sendError [simp]:
  "term_h (sendError w s err) = term_h s" "term_live (sendError w s err) = term_live s"
  by (simp_all add: sendError_def sendError_first_def sendError_rest_def)

lemma tm_runCode_caught [simp]:
  "term_h (runCode_caught w r) = term_h (snd r)"
  "term_live (runCode_caught w r) = term_live (snd r)"
  by (cases r; simp add: runCode_caught_def split: option.splits)+

lemma tm_suspend [simp]:
  "term_h (snd (suspend w s a i k)) = term_h s"
  "term_live (snd (suspend w s a i k)) = term_live s"
  by (simp_all add: suspend_def with_spawn_def split: sum.splits)

lemma tm_spawn_fails:
  "fst (runCode_spawn w s cl) = Some e \<Longrightarrow>
   term_h (snd (runCode_spawn w s cl)) = term_h s
   \<and> term_live (snd (runCode_spawn w s cl)) = term_live s"
  by (auto simp: runCode_spawn_def with_spawn_def and_then_def call_def Let_def
        split: sum.splits option.splits)

lemma tm_resume_try_fails:
  assumes "fst (resume_try w s t) = Some e"
  shows "term_h (snd (resume_try w s t)) = term_h s
         \<and> term_live (snd (resume_try w s t)) = term_live s"
proof (cases "(w, s, t)" rule: resume_try.cases)
  case (1 w' s' st code cmdline err)
  then show ?thesis by simp
next
  case (2 w' s' code cmdline)
  then show ?thesis by (simp add: await_write_def)
next
  case (3 w' s' code cmdline)
  show ?thesis
  proof (cases "has_ghci_hack s")
    case True
    with 3 show ?thesis by (simp add: await_hack_def)
  next
    case False
    with 3 assms tm_spawn_fails [of w s cmdline e] show ?thesis by simp
  qed
next
  case (4 w' s' code cmdline)
  with assms tm_spawn_fails [of w s cmdline e] show ?thesis by simp
qed

lemma tm_begin_after_kill:
  "term_h (snd (if needs_mkdir (send w s1 TerminalClear)
                then await_mkdir w (send w s1 TerminalClear) c cl
                else await_write w (send w s1 TerminalClear) c cl)) = term_h s1
   \<and> term_live (snd (if needs_mkdir (send w s1 TerminalClear)
                then await_mkdir w (send w s1 TerminalClear) c cl
                else await_write w (send w s1 TerminalClear) c cl)) = term_live s1"
  by (simp add: await_mkdir_def await_write_def)

lemma begin_clears_field:
  assumes "wf s"
  shows "term_h (runCode_begin w s code) = None
         \<and> length (term_live (runCode_begin w s code)) = length (term_live s)"
proof (cases "term_h s")
  case None
  then have "runCode_kill w s = (None, s)" by (simp add: runCode_kill_def)
  with None tm_begin_after_kill [of w s] show ?thesis
    by (simp add: runCode_begin_def runCode_begin_try_def and_then_def Let_def)
next
  case (Some h)
  from kill_live [OF assms Some, of w] obtain s1 where
    k: "runCode_kill w s = (None, s1)" and t: "term_h s1 = None"
    and l: "term_live s1 = (term_live s)[h := False]"
    by (auto simp: emit_call_def)
  from k t l tm_begin_after_kill [of w s1] show ?thesis
    by (simp add: runCode_begin_def runCode_begin_try_def and_then_def Let_def)
qed

text \<open>
  C9, as stated, fails. By design, a \<open>terminalInput\<close> message that arrives after
  teardown has begun is dropped without a log line, also when a Run-Code has failed
  before (first conjuncts: the request fails at the write of its code, the transport
  closes, the input arrives). And since nothing serialises \<open>receive\<close>, a Run-Code
  that fails does not always leave the field empty: a second request, made while
  the first waits for its write, starts its terminal before the first one fails
  (last conjuncts).
\<close>

theorem failed_run_code_counterexample:
  "term_h (run_events
             (parsing run_frame run_json (parsing input_frame input_json (rejects_code ''print(1+1)S'')))
             (create (parsing run_frame run_json
                        (parsing input_frame input_json (rejects_code ''print(1+1)S''))) ''u'' plain_lang)
             [Fire Ws ''message'' (Data run_frame), Resume 0, Fire Ws ''close'' NoArg]) = None
   \<and> frames (trace (run_events
             (parsing run_frame run_json (parsing input_frame input_json (rejects_code ''print(1+1)S'')))
             (create (parsing run_frame run_json
                        (parsing input_frame input_json (rejects_code ''print(1+1)S''))) ''u'' plain_lang)
             [Fire Ws ''message'' (Data run_frame), Resume 0, Fire Ws ''close'' NoArg]))
       = [TerminalClear, TerminalClear, TerminalClear, TerminalOutput (error_text ''disk full'')]
   \<and> trace (run_events
             (parsing run_frame run_json (parsing input_frame input_json (rejects_code ''print(1+1)S'')))
             (create (parsing run_frame run_json
                        (parsing input_frame input_json (rejects_code ''print(1+1)S''))) ''u'' plain_lang)
             [Fire Ws ''message'' (Data run_frame), Resume 0, Fire Ws ''close'' NoArg,
              Fire Ws ''message'' (Data input_frame)])
       = trace (run_events
             (parsing run_frame run_json (parsing input_frame input_json (rejects_code ''print(1+1)S'')))
             (create (parsing run_frame run_json
                        (parsing input_frame input_json (rejects_code ''print(1+1)S''))) ''u'' plain_lang)
             [Fire Ws ''message'' (Data run_frame), Resume 0, Fire Ws ''close'' NoArg])
   \<and> frames (trace (run_events
             (parsing run_frame run_json
                (parsing other_run_frame other_run_json (rejects_code ''print(1+1)S'')))
             (create (parsing run_frame run_json
                        (parsing other_run_frame other_run_json (rejects_code ''print(1+1)S'')))
                ''u'' plain_lang)
             [Fire Ws ''message'' (Data run_frame), Fire Ws ''message'' (Data other_run_frame),
              Resume 1, Resume 0]))
       = [TerminalClear, TerminalClear, TerminalClear, TerminalClear,
          TerminalOutput (error_text ''disk full'')]
   \<and> term_h (run_events
             (parsing run_frame run_json
                (parsing other_run_frame other_run_json (rejects_code ''print(1+1)S'')))
             (create (parsing run_frame run_json
                        (parsing other_run_frame other_run_json (rejects_code ''print(1+1)S'')))
                ''u'' plain_lang)
             [Fire Ws ''message'' (Data run_frame), Fire Ws ''message'' (Data other_run_frame),
              Resume 1, Resume 0]) = Some 1"
  by (simp add: run_defs world_defs frame_defs run_frame_def run_json_def input_frame_def
        input_json_def other_run_frame_def other_run_json_def nth_append)

text \<open>
  C9, amended. Take a session reached by the class. When a terminal is in the field,
  the kill block of Run-Code is the first thing that happens: it cannot fail, and in
  the state it leaves the terminal is dead and the field is empty; the rest of the
  request (the \<open>terminalClear\<close> frame, the deployment, the new terminal) starts from
  that state. A Run-Code request as received runs up to its first awaited command
  and leaves the field empty, without creating a terminal. From then on, whatever
  happens to the session, the field stays empty as long as no terminal has been
  created; and a continuation of Run-Code that fails creates none and leaves the
  field as it is. While the field is empty, a \<open>terminalInput\<close> message only writes
  the log line that it is ignored; once teardown has begun it does nothing.
\<close>

theorem failed_run_code_leaves_no_terminal:
  assumes "wf s"
  shows "(term_h s = Some h \<longrightarrow>
           (\<exists>c s1. runCode_kill w s = (None, s1) \<and> trace s1 = trace s @ [Spawn c]
                \<and> term_h s1 = None \<and> h < length (term_live s1) \<and> \<not> term_live s1 ! h
                \<and> runCode_begin w s code
                    = runCode_caught w
                        (if needs_mkdir (send w s1 TerminalClear)
                         then await_mkdir w (send w s1 TerminalClear)
                                (deployed_code (config s) code) (cmdline_of (config s) code)
                         else await_write w (send w s1 TerminalClear)
                                (deployed_code (config s) code) (cmdline_of (config s) code))))
       \<and> term_h (runCode_begin w s code) = None
       \<and> length (term_live (runCode_begin w s code)) = length (term_live s)
       \<and> (\<not> tearingDown s \<longrightarrow> json_parse w ev = Some m \<longrightarrow>
            switch_value m = Some (JStr ''runCode'') \<longrightarrow> js_get m ''code'' = Some (JStr c') \<longrightarrow>
            receive w s ev = runCode_begin w s (Some c'))
       \<and> (length (term_live (run_events w (runCode_begin w s code) evs)) = length (term_live s) \<longrightarrow>
            term_h (run_events w (runCode_begin w s code) evs) = None)
       \<and> (k < length (waiting s) \<longrightarrow>
            fst (resume_try w (s\<lparr>waiting := take k (waiting s) @ drop (Suc k) (waiting s)\<rparr>)
                   (waiting s ! k)) \<noteq> None \<longrightarrow>
            term_h (resume w s k) = term_h s \<and> term_live (resume w s k) = term_live s)
       \<and> (term_h s = None \<longrightarrow> json_parse w ev = Some m \<longrightarrow>
            switch_value m = Some (JStr ''terminalInput'') \<longrightarrow> js_get m ''input'' = Some (JStr i) \<longrightarrow>
            receive w s ev = (if tearingDown s then s else emit_call (Log TerminalInputIgnored) s))"
proof (intro conjI impI)
  assume t: "term_h s = Some h"
  from assms t have len: "h < length (term_live s)" by (simp add: wf_def)
  from kill_live [OF assms t, of w] obtain u where
    k: "runCode_kill w s =
       (None, (emit_call (Spawn (PrivilegedSpawn (Context u (uuid s)) (Bash (kill_cmd w (pty_pid w h))))) s)
                 \<lparr>term_live := (term_live s)[h := False], term_h := None\<rparr>)"
    by blast
  let ?c = "PrivilegedSpawn (Context u (uuid s)) (Bash (kill_cmd w (pty_pid w h)))"
  let ?s1 = "(emit_call (Spawn ?c) s)\<lparr>term_live := (term_live s)[h := False], term_h := None\<rparr>"
  have "runCode_kill w s = (None, ?s1) \<and> trace ?s1 = trace s @ [Spawn ?c]
        \<and> term_h ?s1 = None \<and> h < length (term_live ?s1) \<and> \<not> term_live ?s1 ! h
        \<and> runCode_begin w s code
            = runCode_caught w
                (if needs_mkdir (send w ?s1 TerminalClear)
                 then await_mkdir w (send w ?s1 TerminalClear)
                        (deployed_code (config s) code) (cmdline_of (config s) code)
                 else await_write w (send w ?s1 TerminalClear)
                        (deployed_code (config s) code) (cmdline_of (config s) code))"
    using k len
    by (simp add: runCode_begin_def runCode_begin_try_def and_then_def Let_def)
       (simp add: emit_call_def)
  then show "\<exists>c s1. runCode_kill w s = (None, s1) \<and> trace s1 = trace s @ [Spawn c]
                \<and> term_h s1 = None \<and> h < length (term_live s1) \<and> \<not> term_live s1 ! h
                \<and> runCode_begin w s code
                    = runCode_caught w
                        (if needs_mkdir (send w s1 TerminalClear)
                         then await_mkdir w (send w s1 TerminalClear)
                                (deployed_code (config s) code) (cmdline_of (config s) code)
                         else await_write w (send w s1 TerminalClear)
                                (deployed_code (config s) code) (cmdline_of (config s) code))"
    by blast
next
  from begin_clears_field [OF assms, of w code]
  show "term_h (runCode_begin w s code) = None"
    and "length (term_live (runCode_begin w s code)) = length (term_live s)"
    by simp_all
next
  assume "\<not> tearingDown s" "json_parse w ev = Some m" "switch_value m = Some (JStr ''runCode'')"
    "js_get m ''code'' = Some (JStr c')"
  then show "receive w s ev = runCode_begin w s (Some c')"
    by (simp add: receive_def receive_switch_def)
next
  let ?B = "runCode_begin w s code"
  assume l: "length (term_live (run_events w ?B evs)) = length (term_live s)"
  from begin_clears_field [OF assms, of w code]
  have b: "term_h ?B = None" "length (term_live ?B) = length (term_live s)" by simp_all
  from evolves_run_events [of ?B w evs] b l
  show "term_h (run_events w ?B evs) = None" by (simp add: evolves_def)
next
  let ?s0 = "s\<lparr>waiting := take k (waiting s) @ drop (Suc k) (waiting s)\<rparr>"
  assume k: "k < length (waiting s)" and f: "fst (resume_try w ?s0 (waiting s ! k)) \<noteq> None"
  then obtain e where "fst (resume_try w ?s0 (waiting s ! k)) = Some e" by blast
  from tm_resume_try_fails [OF this] k
  show "term_h (resume w s k) = term_h s" and "term_live (resume w s k) = term_live s"
    by (simp_all add: resume_def)
next
  assume "term_h s = None" "json_parse w ev = Some m"
    "switch_value m = Some (JStr ''terminalInput'')" "js_get m ''input'' = Some (JStr i)"
  then show "receive w s ev = (if tearingDown s then s else emit_call (Log TerminalInputIgnored) s)"
    by (simp add: receive_def receive_switch_def)
qed

theorem failed_run_code_leaves_no_terminal_witness:
  "term_h (create (parsing run_frame run_json
                     (parsing input_frame input_json (rejects_code ''print(1+1)S''))) ''u'' plain_lang)
     = Some 0
   \<and> term_h (receive (parsing run_frame run_json
                        (parsing input_frame input_json (rejects_code ''print(1+1)S'')))
                (create (parsing run_frame run_json
                     (parsing input_frame input_json (rejects_code ''print(1+1)S''))) ''u'' plain_lang)
                run_frame) = None
   \<and> term_h (run_events (parsing run_frame run_json
                        (parsing input_frame input_json (rejects_code ''print(1+1)S'')))
                (create (parsing run_frame run_json
                     (parsing input_frame input_json (rejects_code ''print(1+1)S''))) ''u'' plain_lang)
                [Fire Ws ''message'' (Data run_frame), Resume 0]) = None
   \<and> receive (parsing run_frame run_json
                 (parsing input_frame input_json (rejects_code ''print(1+1)S'')))
        (run_events (parsing run_frame run_json
                        (parsing input_frame input_json (rejects_code ''print(1+1)S'')))
                (create (parsing run_frame run_json
                     (parsing input_frame input_json (rejects_code ''print(1+1)S''))) ''u'' plain_lang)
                [Fire Ws ''message'' (Data run_frame), Resume 0])
        input_frame
     = emit_call (Log TerminalInputIgnored)
        (run_events (parsing run_frame run_json
                        (parsing input_frame input_json (rejects_code ''print(1+1)S'')))
                (create (parsing run_frame run_json
                     (parsing input_frame input_json (rejects_code ''print(1+1)S''))) ''u'' plain_lang)
                [Fire Ws ''message'' (Data run_frame), Resume 0])"
proof -
  let ?W = "parsing run_frame run_json (parsing input_frame input_json (rejects_code ''print(1+1)S''))"
  let ?S = "create ?W ''u'' plain_lang"
  let ?T = "receive ?W ?S run_frame"
  let ?U = "run_events ?W ?S [Fire Ws ''message'' (Data run_frame), Resume 0]"
  have wS: "wf ?S" by simp
  have wT: "wf ?T" using evolves_receive [of ?S ?W run_frame] wS by (simp add: evolves_def)
  have wU: "wf ?U" by (rule wf_run_events [OF wS])
  have h: "term_h ?S = Some 0" and nt: "\<not> tearingDown ?S"
    by (simp_all add: run_defs world_defs)
  have p: "json_parse ?W run_frame = Some run_json"
    and q: "json_parse ?W input_frame = Some input_json"
    by (simp_all add: parsing_def run_frame_def input_frame_def)
  have sv: "switch_value run_json = Some (JStr ''runCode'')"
    "js_get run_json ''code'' = Some (JStr ''print(1+1)'')"
    "switch_value input_json = Some (JStr ''terminalInput'')"
    "js_get input_json ''input'' = Some (JStr ''ls'')"
    by (simp_all add: switch_value_def run_json_def input_json_def)
  have fr: "registered ?S Ws ''message'' = [OnWsMessage]"
    by (simp add: run_defs world_defs)
  have U: "?U = resume ?W ?T 0" by (simp add: run_events_def fire_def fr)
  have k: "(0::nat) < length (waiting ?T)"
    and f: "fst (resume_try ?W (?T\<lparr>waiting := take 0 (waiting ?T) @ drop (Suc 0) (waiting ?T)\<rparr>)
                   (waiting ?T ! 0)) \<noteq> None"
    by (simp_all add: run_defs world_defs run_json_def)
  have ntU: "\<not> tearingDown ?U"
    by (simp add: run_defs world_defs run_json_def)
  note a = failed_run_code_leaves_no_terminal
             [OF wS, where w = ?W and ev = run_frame and m = run_json and c' = "''print(1+1)''"
                and code = "Some ''print(1+1)''" and h = 0]
  from a h nt p sv have r: "?T = runCode_begin ?W ?S (Some ''print(1+1)'')"
    and t: "term_h (runCode_begin ?W ?S (Some ''print(1+1)'')) = None"
    by simp_all
  note b = failed_run_code_leaves_no_terminal [OF wT, where w = ?W and k = 0]
  from b k f r t have u: "term_h ?U = None" by (simp add: U)
  note c = failed_run_code_leaves_no_terminal
             [OF wU, where w = ?W and ev = input_frame and m = input_json and i = "''ls''"]
  from c u q sv ntU have "receive ?W ?U input_frame = emit_call (Log TerminalInputIgnored) ?U"
    by simp
  with h r t u show ?thesis by simp
qed

end
